theory Spec2Isabelle
  imports Complex_Main
begin

section \<open>Python values, exceptions and dictionaries\<close>

text \<open>
  A Python float is a finite number, an infinity or NaN. The finite ones are modelled by
  the real number they denote; an arithmetic result beyond the largest float overflows
  to an infinity (\<open>fl\<close>); rounding within the range is not modelled.
\<close>

datatype pyfloat = Fin real | PInf | NInf | NaN

definition float_max :: real where
  "float_max = (2 - 1 / 2 ^ 52) * 2 ^ 1023"

definition fl :: "real \<Rightarrow> pyfloat" where
  "fl x = (if float_max < x then PInf else if x < - float_max then NInf else Fin x)"


text \<open>\<open>a < b\<close> and \<open>a <= b\<close> on floats: every comparison with NaN is false.\<close>

fun flt :: "pyfloat \<Rightarrow> pyfloat \<Rightarrow> bool" where
  "flt NaN b = False"
| "flt a NaN = False"
| "flt (Fin a) (Fin b) = (a < b)"
| "flt a NInf = False"
| "flt NInf b = True"
| "flt PInf b = False"
| "flt (Fin a) PInf = True"

fun fle :: "pyfloat \<Rightarrow> pyfloat \<Rightarrow> bool" where
  "fle NaN b = False"
| "fle a NaN = False"
| "fle (Fin a) (Fin b) = (a \<le> b)"
| "fle NInf b = True"
| "fle a PInf = True"
| "fle a NInf = False"
| "fle PInf b = False"

text \<open>\<open>a - b\<close> on floats\<close>

fun fsub :: "pyfloat \<Rightarrow> pyfloat \<Rightarrow> pyfloat" where
  "fsub NaN b = NaN"
| "fsub a NaN = NaN"
| "fsub (Fin a) (Fin b) = fl (a - b)"
| "fsub PInf PInf = NaN"
| "fsub NInf NInf = NaN"
| "fsub PInf b = PInf"
| "fsub NInf b = NInf"
| "fsub (Fin a) PInf = NInf"
| "fsub (Fin a) NInf = PInf"

text \<open>\<open>abs(a)\<close>\<close>

fun fabs :: "pyfloat \<Rightarrow> pyfloat" where
  "fabs (Fin a) = Fin \<bar>a\<bar>"
| "fabs PInf = PInf"
| "fabs NInf = PInf"
| "fabs NaN = NaN"

text \<open>\<open>a / b\<close> for a float \<open>a\<close> and a finite, non-zero divisor \<open>b\<close>\<close>

fun fdiv :: "pyfloat \<Rightarrow> real \<Rightarrow> pyfloat" where
  "fdiv (Fin a) b = fl (a / b)"
| "fdiv PInf b = (if 0 < b then PInf else NInf)"
| "fdiv NInf b = (if 0 < b then NInf else PInf)"
| "fdiv NaN b = NaN"

text \<open>
  Telemetry values are Python objects (\<open>Dict[str, Any]\<close>). They are represented by
  what \<open>float()\<close> does to them: a float, an int, \<open>None\<close>, or some other object
  that \<open>float()\<close> rejects.
\<close>

datatype pyval = PyFloat pyfloat | PyInt int | PyNone | PyObject

datatype pyerror = KeyError string | TypeError | ValueError | ZeroDivisionError

text \<open>The name of the exception class, as \<open>type(e).__name__\<close> gives it.\<close>

fun exn_class :: "pyerror \<Rightarrow> string" where
  "exn_class (KeyError k) = ''KeyError''"
| "exn_class TypeError = ''TypeError''"
| "exn_class ValueError = ''ValueError''"
| "exn_class ZeroDivisionError = ''ZeroDivisionError''"

type_synonym pydict = "string \<rightharpoonup> pyval"

text \<open>\<open>d.get(key, default)\<close>\<close>

definition dict_get :: "pydict \<Rightarrow> string \<Rightarrow> pyval \<Rightarrow> pyval" where
  "dict_get d key dflt = (case d key of None \<Rightarrow> dflt | Some v \<Rightarrow> v)"

text \<open>\<open>m[key]\<close> on a configuration map: a missing key raises \<open>KeyError(key)\<close>.\<close>

definition subscript :: "(string \<rightharpoonup> int) \<Rightarrow> string \<Rightarrow> pyerror + int" where
  "subscript m key = (case m key of None \<Rightarrow> Inl (KeyError key) | Some v \<Rightarrow> Inr v)"

text \<open>\<open>float(val)\<close>: \<open>None\<close> and foreign objects raise \<open>TypeError\<close>.\<close>

fun py_float :: "pyval \<Rightarrow> pyerror + pyfloat" where
  "py_float (PyFloat x) = Inr x"
| "py_float (PyInt i) = Inr (Fin (real_of_int i))"
| "py_float PyNone = Inl TypeError"
| "py_float PyObject = Inl TypeError"

section \<open>TelemetryStore (rocket\_client.py)\<close>

text \<open>
  \<open>get_all\<close> returns \<open>dict(self._data)\<close>, a new dictionary object, so the store is
  modelled on an explicit heap of dictionary objects: an address is an index into the
  heap, \<open>self._data\<close> is the address of the store's own dictionary, and allocation
  appends. The lock only serialises the accesses; each operation is one atomic step.
\<close>

type_synonym heap = "pydict list"

record TelemetryStore =
  data :: nat

text \<open>\<open>__init__\<close>: \<open>self._data = {}\<close>\<close>

definition TelemetryStore_init :: "heap \<Rightarrow> TelemetryStore \<times> heap" where
  "TelemetryStore_init h = (\<lparr>data = length h\<rparr>, h @ [Map.empty])"

text \<open>\<open>self._data[key] = value\<close>\<close>

definition update :: "TelemetryStore \<Rightarrow> string \<Rightarrow> pyval \<Rightarrow> heap \<Rightarrow> heap" where
  "update self key v h = h[data self := (h ! data self)(key \<mapsto> v)]"

text \<open>\<open>return dict(self._data)\<close>: the address of the copy, and the heap holding it.\<close>

definition get_all :: "TelemetryStore \<Rightarrow> heap \<Rightarrow> nat \<times> heap" where
  "get_all self h = (length h, h @ [h ! data self])"

text \<open>\<open>return self._data.get(key, default)\<close>\<close>

definition get :: "TelemetryStore \<Rightarrow> string \<Rightarrow> pyval \<Rightarrow> heap \<Rightarrow> pyval" where
  "get self key dflt h = dict_get (h ! data self) key dflt"

text \<open>
  A caller that holds a dictionary it was given (a snapshot) may write into it:
  \<open>snap[key] = value\<close>.
\<close>

definition dict_setitem :: "nat \<Rightarrow> string \<Rightarrow> pyval \<Rightarrow> heap \<Rightarrow> heap" where
  "dict_setitem a key v h = h[a := (h ! a)(key \<mapsto> v)]"

text \<open>Sequences of calls on one store: \<open>update(key, value)\<close> and \<open>get_all()\<close>.\<close>

datatype store_op = Update string pyval | GetAll

fun run_op :: "TelemetryStore \<Rightarrow> store_op \<Rightarrow> heap \<Rightarrow> heap" where
  "run_op self (Update key v) h = update self key v h"
| "run_op self GetAll h = snd (get_all self h)"

fun run_ops :: "TelemetryStore \<Rightarrow> store_op list \<Rightarrow> heap \<Rightarrow> heap" where
  "run_ops self [] h = h"
| "run_ops self (x # xs) h = run_ops self xs (run_op self x h)"

text \<open>The value most recently written under a key by a sequence of calls, if any.\<close>

fun last_write :: "store_op list \<Rightarrow> string \<Rightarrow> pyval option" where
  "last_write [] key = None"
| "last_write (Update k v # xs) key =
     (case last_write xs key of Some w \<Rightarrow> Some w
      | None \<Rightarrow> if k = key then Some v else None)"
| "last_write (GetAll # xs) key = last_write xs key"

section \<open>The environment of the controller\<close>

text \<open>
  The controller runs against a telemetry store that a background thread keeps writing, a
  wall clock, and a command channel. A run is modelled against the sequence of what it
  observes: \<open>feed\<close> holds the contents of the store at each successive \<open>get_telem\<close>
  call, \<open>clock\<close> the value of each successive \<open>time.time()\<close> call, and \<open>trace\<close>
  records, in order, every frame handed to the channel and every \<open>time.sleep\<close>. A
  call that needs an observation the sequence no longer has is \<open>Pending\<close>: the code is
  still waiting there.
\<close>

datatype DeviceID = SERVO | RELAY | SENSOR

datatype DataTypeID = INT16 | FLOAT

datatype OperationID = POSITION | OPEN | CLOSE | READ

text \<open>
  The fields of a command \<open>Frame\<close> that differ between commands (destination, priority,
  action and source are the same constants in every command).
\<close>

record Frame =
  device_type :: DeviceID
  device_id :: int
  data_type :: DataTypeID
  operation :: OperationID
  payload :: "int list"

datatype event = Sent Frame | Slept real

record world =
  feed :: "pydict list"
  clock :: "real list"
  trace :: "event list"

datatype ('v, 's) res = Done 'v 's | Raised pyerror 's | Pending 's

text \<open>The state an outcome carries.\<close>

fun final :: "('v, 's) res \<Rightarrow> 's" where
  "final (Done v s) = s"
| "final (Raised e s) = s"
| "final (Pending s) = s"

definition bind :: "('s \<Rightarrow> ('v, 's) res) \<Rightarrow> ('v \<Rightarrow> 's \<Rightarrow> ('w, 's) res) \<Rightarrow> 's \<Rightarrow> ('w, 's) res" where
  "bind m f s = (case m s of Done v s' \<Rightarrow> f v s' | Raised e s' \<Rightarrow> Raised e s' | Pending s' \<Rightarrow> Pending s')"

definition return :: "'v \<Rightarrow> 's \<Rightarrow> ('v, 's) res" where
  "return v s = Done v s"

definition raise :: "pyerror \<Rightarrow> 's \<Rightarrow> ('v, 's) res" where
  "raise e s = Raised e s"

text \<open>\<open>m[key]\<close> inside a run.\<close>

definition lookup :: "(string \<rightharpoonup> int) \<Rightarrow> string \<Rightarrow> 's \<Rightarrow> (int, 's) res" where
  "lookup m key s = (case subscript m key of Inl e \<Rightarrow> Raised e s | Inr v \<Rightarrow> Done v s)"

text \<open>
  \<open>time.sleep(d)\<close>: a negative \<open>d\<close> raises \<open>ValueError\<close>. \<open>slept d\<close> is the
  world after a sleep of a non-negative \<open>d\<close>; the loops, which sleep for positive
  constants, use it directly.
\<close>

definition slept :: "real \<Rightarrow> 'a world_scheme \<Rightarrow> 'a world_scheme" where
  "slept d w = w\<lparr>trace := trace w @ [Slept d]\<rparr>"

definition sleep :: "real \<Rightarrow> 'a world_scheme \<Rightarrow> (unit, 'a world_scheme) res" where
  "sleep d w = (if d < 0 then Raised ValueError w else Done () (slept d w))"

text \<open>\<open>time.time()\<close>: the clock's values are finite, and are modelled as reals.\<close>

definition time_time :: "'a world_scheme \<Rightarrow> (real, 'a world_scheme) res" where
  "time_time w = (case clock w of [] \<Rightarrow> Pending w | t # ts \<Rightarrow> Done t (w\<lparr>clock := ts\<rparr>))"

text \<open>\<open>self.cm.push(frame); self.cm.send()\<close>\<close>

definition push_send :: "Frame \<Rightarrow> 'a world_scheme \<Rightarrow> (unit, 'a world_scheme) res" where
  "push_send frame w = Done () (w\<lparr>trace := trace w @ [Sent frame]\<rparr>)"

section \<open>RocketClient (rocket\_client.py)\<close>

record RocketClient =
  servo_map :: "string \<rightharpoonup> int"
  relay_map :: "string \<rightharpoonup> int"
  sensor_map :: "string \<rightharpoonup> int"
  servo_open_pos :: "string \<rightharpoonup> int"
  servo_closed_pos :: "string \<rightharpoonup> int"

definition servo_frame :: "int \<Rightarrow> int \<Rightarrow> Frame" where
  "servo_frame dev position =
     \<lparr>device_type = SERVO, device_id = dev, data_type = INT16, operation = POSITION,
      payload = [position]\<rparr>"

definition relay_frame :: "int \<Rightarrow> OperationID \<Rightarrow> Frame" where
  "relay_frame dev oper =
     \<lparr>device_type = RELAY, device_id = dev, data_type = FLOAT, operation = oper,
      payload = []\<rparr>"

definition set_servo_position ::
  "RocketClient \<Rightarrow> string \<Rightarrow> int \<Rightarrow> 'a world_scheme \<Rightarrow> (unit, 'a world_scheme) res" where
  "set_servo_position self servo_name position =
     bind (lookup (servo_map self) servo_name) (\<lambda>dev.
     push_send (servo_frame dev position))"

definition relay_open ::
  "RocketClient \<Rightarrow> string \<Rightarrow> 'a world_scheme \<Rightarrow> (unit, 'a world_scheme) res" where
  "relay_open self relay_name =
     bind (lookup (relay_map self) relay_name) (\<lambda>dev.
     push_send (relay_frame dev OPEN))"

definition relay_close ::
  "RocketClient \<Rightarrow> string \<Rightarrow> 'a world_scheme \<Rightarrow> (unit, 'a world_scheme) res" where
  "relay_close self relay_name =
     bind (lookup (relay_map self) relay_name) (\<lambda>dev.
     push_send (relay_frame dev CLOSE))"

text \<open>\<open>get_telem\<close>: \<open>self.telemetry.get(key, default)\<close> on the store as it is now.\<close>

definition get_telem :: "string \<Rightarrow> pyval \<Rightarrow> 'a world_scheme \<Rightarrow> (pyval, 'a world_scheme) res" where
  "get_telem key dflt w =
     (case feed w of [] \<Rightarrow> Pending w
      | d # ds \<Rightarrow> Done (dict_get d key dflt) (w\<lparr>feed := ds\<rparr>))"

section \<open>FlightController (flight\_controller.py)\<close>

datatype FlightState =
  IDLE | TANKING_OX | OX_READY | TANKING_FUEL | FUEL_READY | HEATING | ARMED
  | IGNITION_SEQUENCE | BOOST | ASCENT | COAST | APOGEE | DESCENT | CHUTE_DEPLOYED
  | LANDED | ABORT

text \<open>
  The controller's own fields, on top of the environment it runs in: \<open>c\<close> is the
  client (its configuration maps), never written after construction.
\<close>

record FlightController = world +
  c :: RocketClient
  state :: FlightState
  apogee_alt :: "pyfloat option"
  apogee_time :: "real option"
  landed :: bool

text \<open>
  \<open>_telem(key, default)\<close>: \<open>float(val)\<close>, or \<open>default\<close> when
  \<open>float\<close> raises \<open>ValueError\<close> or \<open>TypeError\<close>.
\<close>

definition telem :: "string \<Rightarrow> pyval \<Rightarrow> FlightController \<Rightarrow> (pyval, FlightController) res" where
  "telem key dflt =
     bind (get_telem key dflt) (\<lambda>val.
     case py_float val of Inr x \<Rightarrow> return (PyFloat x) | Inl e \<Rightarrow> return dflt)"

text \<open>
  A value used as a number (in a comparison with a float, a subtraction): \<open>None\<close> and
  foreign objects raise \<open>TypeError\<close> there.
\<close>

definition as_number :: "pyval \<Rightarrow> 's \<Rightarrow> (pyfloat, 's) res" where
  "as_number v = (case py_float v of Inr x \<Rightarrow> return x | Inl e \<Rightarrow> raise e)"

definition fuel_level :: "FlightController \<Rightarrow> (pyfloat, FlightController) res" where
  "fuel_level = bind (telem ''fuel_level'' (PyFloat (Fin 0))) as_number"

definition oxidizer_level :: "FlightController \<Rightarrow> (pyfloat, FlightController) res" where
  "oxidizer_level = bind (telem ''oxidizer_level'' (PyFloat (Fin 0))) as_number"

definition oxidizer_pressure :: "FlightController \<Rightarrow> (pyfloat, FlightController) res" where
  "oxidizer_pressure = bind (telem ''oxidizer_pressure'' (PyFloat (Fin 0))) as_number"

definition altitude :: "FlightController \<Rightarrow> (pyfloat, FlightController) res" where
  "altitude = bind (telem ''altitude'' (PyFloat (Fin 0))) as_number"

text \<open>
  \<open>a / b\<close> on floats, for a divisor computed from clock values: a zero divisor raises
  \<open>ZeroDivisionError\<close>.
\<close>

definition py_div :: "pyfloat \<Rightarrow> real \<Rightarrow> 's \<Rightarrow> (pyfloat, 's) res" where
  "py_div a b = (if b = 0 then raise ZeroDivisionError else return (fdiv a b))"

definition vertical_speed :: "real \<Rightarrow> FlightController \<Rightarrow> (pyfloat, FlightController) res" where
  "vertical_speed sample_dt =
     bind altitude (\<lambda>h1.
     bind time_time (\<lambda>t1.
     bind (sleep sample_dt) (\<lambda>_.
     bind altitude (\<lambda>h2.
     bind time_time (\<lambda>t2.
     py_div (fsub h2 h1) (max (t2 - t1) (1 / 1000000)))))))"

definition servo_is_closed :: "string \<Rightarrow> FlightController \<Rightarrow> (bool, FlightController) res" where
  "servo_is_closed servo_name self =
     bind (telem (servo_name @ ''_pos'') PyNone) (\<lambda>pos.
       if pos = PyNone then return False
       else
         bind (lookup (servo_closed_pos (c self)) servo_name) (\<lambda>closed_target.
         bind (as_number pos) (\<lambda>p.
         return (flt (fabs (fsub p (Fin (real_of_int closed_target)))) (Fin 5))))) self"

definition set_state :: "FlightState \<Rightarrow> FlightController \<Rightarrow> (unit, FlightController) res" where
  "set_state st self = Done () (self\<lparr>state := st\<rparr>)"

subsection \<open>Oxidizer and fuel loading\<close>

lemma get_telem_feed:
  "get_telem key dflt w = Done v w' \<Longrightarrow> length (feed w') < length (feed w)"
  by (auto simp: get_telem_def split: list.splits)

lemma telem_feed:
  "telem key dflt s = Done v s' \<Longrightarrow> length (feed s') < length (feed s)"
  by (auto simp: telem_def bind_def return_def split: res.splits sum.splits
      dest: get_telem_feed)

lemma as_number_state: "as_number v s = Done x s' \<Longrightarrow> s' = s"
  by (auto simp: as_number_def return_def raise_def split: sum.splits)

lemma reading_feed:
  "bind (telem key dflt) as_number s = Done x s' \<Longrightarrow> length (feed s') < length (feed s)"
  by (auto simp: bind_def split: res.splits dest: telem_feed as_number_state)

lemmas level_feed =
  reading_feed [of "''oxidizer_level''" "PyFloat (Fin 0)", folded oxidizer_level_def]
  reading_feed [of "''fuel_level''" "PyFloat (Fin 0)", folded fuel_level_def]
  reading_feed [of "''oxidizer_pressure''" "PyFloat (Fin 0)", folded oxidizer_pressure_def]
  reading_feed [of "''altitude''" "PyFloat (Fin 0)", folded altitude_def]

lemma slept_feed: "feed (slept d w) = feed w"
  by (simp add: slept_def)

text \<open>\<open>while self.oxidizer_level() < 100.0: time.sleep(0.2)\<close>\<close>

function tank_oxidizer_loop :: "FlightController \<Rightarrow> (unit, FlightController) res" where
  "tank_oxidizer_loop self =
     (case oxidizer_level self of
        Done lvl s1 \<Rightarrow>
          if flt lvl (Fin 100) then tank_oxidizer_loop (slept (1 / 5) s1) else Done () s1
      | Raised e s1 \<Rightarrow> Raised e s1
      | Pending s1 \<Rightarrow> Pending s1)"
  by pat_completeness auto
termination
  by (relation "measure (\<lambda>s. length (feed s))") (auto simp: slept_feed dest: level_feed)

declare tank_oxidizer_loop.simps [simp del]

definition tank_oxidizer :: "FlightController \<Rightarrow> (unit, FlightController) res" where
  "tank_oxidizer self =
     bind (set_state TANKING_OX) (\<lambda>_.
     bind (lookup (servo_open_pos (c self)) ''oxidizer_intake'') (\<lambda>open_pos.
     bind (set_servo_position (c self) ''oxidizer_intake'' open_pos) (\<lambda>_.
     bind tank_oxidizer_loop (\<lambda>_.
     bind (lookup (servo_closed_pos (c self)) ''oxidizer_intake'') (\<lambda>closed_pos.
     bind (set_servo_position (c self) ''oxidizer_intake'' closed_pos) (\<lambda>_.
     bind oxidizer_pressure (\<lambda>_.
     set_state OX_READY))))))) self"

text \<open>\<open>while self.fuel_level() < 100.0: time.sleep(0.2)\<close>\<close>

function tank_fuel_loop :: "FlightController \<Rightarrow> (unit, FlightController) res" where
  "tank_fuel_loop self =
     (case fuel_level self of
        Done lvl s1 \<Rightarrow>
          if flt lvl (Fin 100) then tank_fuel_loop (slept (1 / 5) s1) else Done () s1
      | Raised e s1 \<Rightarrow> Raised e s1
      | Pending s1 \<Rightarrow> Pending s1)"
  by pat_completeness auto
termination
  by (relation "measure (\<lambda>s. length (feed s))") (auto simp: slept_feed dest: level_feed)

declare tank_fuel_loop.simps [simp del]

definition tank_fuel :: "FlightController \<Rightarrow> (unit, FlightController) res" where
  "tank_fuel self =
     bind (set_state TANKING_FUEL) (\<lambda>_.
     bind (lookup (servo_open_pos (c self)) ''fuel_intake'') (\<lambda>open_pos.
     bind (set_servo_position (c self) ''fuel_intake'' open_pos) (\<lambda>_.
     bind tank_fuel_loop (\<lambda>_.
     bind (lookup (servo_closed_pos (c self)) ''fuel_intake'') (\<lambda>closed_pos.
     bind (set_servo_position (c self) ''fuel_intake'' closed_pos) (\<lambda>_.
     set_state FUEL_READY)))))) self"

subsection \<open>Oxidizer heating\<close>

text \<open>The \<open>while True\<close> loop of \<open>heat_oxidizer\<close>, left by one of its two \<open>break\<close>s.\<close>

function heat_oxidizer_loop :: "FlightController \<Rightarrow> (unit, FlightController) res" where
  "heat_oxidizer_loop self =
     (case oxidizer_pressure self of
        Done p s1 \<Rightarrow>
          if fle (Fin 55) p \<and> fle p (Fin 65) then Done () s1
          else if fle (Fin 90) p then Done () (s1\<lparr>state := ABORT\<rparr>)
          else heat_oxidizer_loop (slept (1 / 5) s1)
      | Raised e s1 \<Rightarrow> Raised e s1
      | Pending s1 \<Rightarrow> Pending s1)"
  by pat_completeness auto
termination
  by (relation "measure (\<lambda>s. length (feed s))") (auto simp: slept_feed dest: level_feed)

declare heat_oxidizer_loop.simps [simp del]

definition heat_oxidizer :: "FlightController \<Rightarrow> (unit, FlightController) res" where
  "heat_oxidizer self =
     bind (set_state HEATING) (\<lambda>_.
     bind (relay_open (c self) ''oxidizer_heater'') (\<lambda>_.
     bind heat_oxidizer_loop (\<lambda>_.
     bind (relay_close (c self) ''oxidizer_heater'') (\<lambda>_ s.
     if state s \<noteq> ABORT then set_state ARMED s else return () s)))) self"

subsection \<open>Ignition\<close>

definition ignition_sequence :: "FlightController \<Rightarrow> (unit, FlightController) res" where
  "ignition_sequence self =
     (if state self = ABORT then return () self
      else
        bind (set_state IGNITION_SEQUENCE) (\<lambda>_.
        bind (servo_is_closed ''fuel_intake'') (\<lambda>fuel_closed.
        if \<not> fuel_closed then set_state ABORT
        else
          bind (servo_is_closed ''oxidizer_intake'') (\<lambda>oxidizer_closed.
          if \<not> oxidizer_closed then set_state ABORT
          else
            bind oxidizer_pressure (\<lambda>p.
            if flt p (Fin 40) then set_state ABORT
            else if flt (Fin 65) p then set_state ABORT
            else
              bind (lookup (servo_open_pos (c self)) ''fuel_main'') (\<lambda>fuel_pos.
              bind (set_servo_position (c self) ''fuel_main'' fuel_pos) (\<lambda>_.
              bind (sleep (1 / 5)) (\<lambda>_.
              bind (lookup (servo_open_pos (c self)) ''oxidizer_main'') (\<lambda>ox_pos.
              bind (set_servo_position (c self) ''oxidizer_main'' ox_pos) (\<lambda>_.
              bind (sleep (1 / 5)) (\<lambda>_.
              bind (relay_open (c self) ''igniter'') (\<lambda>_.
              set_state BOOST))))))))))) self)"

subsection \<open>Ascent and apogee\<close>

text \<open>Phase 1: \<open>while True: sleep; alt_now = altitude(); if alt_now - start_alt > 1.0: break\<close>\<close>

function arm_loop :: "pyfloat \<Rightarrow> FlightController \<Rightarrow> (unit, FlightController) res" where
  "arm_loop start_alt self =
     (case altitude (slept (1 / 2) self) of
        Done alt_now s1 \<Rightarrow>
          if flt (Fin 1) (fsub alt_now start_alt) then Done () s1 else arm_loop start_alt s1
      | Raised e s1 \<Rightarrow> Raised e s1
      | Pending s1 \<Rightarrow> Pending s1)"
  by pat_completeness auto
termination
  by (relation "measure (\<lambda>(a, s). length (feed s))")
     (auto dest!: level_feed simp: slept_feed)

declare arm_loop.simps [simp del]

text \<open>Phase 2: the tracking loop, left at the first reading below the last one seen.\<close>

function track_loop :: "pyfloat \<Rightarrow> FlightController \<Rightarrow> (unit, FlightController) res" where
  "track_loop last_alt self =
     (case altitude (slept (1 / 2) self) of
        Done alt_now s1 \<Rightarrow>
          if flt alt_now last_alt then
            bind time_time (\<lambda>now s. Done () (s\<lparr>apogee_time := Some now, state := APOGEE\<rparr>))
              (s1\<lparr>apogee_alt := Some last_alt\<rparr>)
          else track_loop alt_now s1
      | Raised e s1 \<Rightarrow> Raised e s1
      | Pending s1 \<Rightarrow> Pending s1)"
  by pat_completeness auto
termination
  by (relation "measure (\<lambda>(a, s). length (feed s))")
     (auto dest!: level_feed simp: slept_feed)

declare track_loop.simps [simp del]

definition climb_and_detect_apogee :: "FlightController \<Rightarrow> (unit, FlightController) res" where
  "climb_and_detect_apogee self =
     (if state self = ABORT then return () self
      else
        bind (set_state ASCENT) (\<lambda>_.
        bind altitude (\<lambda>start_alt.
        bind (arm_loop start_alt) (\<lambda>_.
        bind altitude (\<lambda>last_alt.
        track_loop last_alt)))) self)"

subsection \<open>Descent and parachute\<close>

text \<open>\<open>self.apogee_time or time.time()\<close>: \<open>None\<close> and \<open>0.0\<close> are falsy.\<close>

definition apogee_time_or_now :: "FlightController \<Rightarrow> (real, FlightController) res" where
  "apogee_time_or_now self =
     (case apogee_time self of
        None \<Rightarrow> time_time self
      | Some t \<Rightarrow> if t = 0 then time_time self else return t self)"

text \<open>
  What one pass of the deploy loop samples before it decides: \<open>v_down\<close>, \<open>alt_now\<close>
  and \<open>t_since_apogee\<close>.
\<close>

definition descent_poll ::
  "FlightController \<Rightarrow> (pyfloat \<times> pyfloat \<times> real, FlightController) res" where
  "descent_poll =
     bind (vertical_speed (1 / 2)) (\<lambda>v.
     bind altitude (\<lambda>alt_now.
     bind time_time (\<lambda>now.
     bind apogee_time_or_now (\<lambda>since.
     return (fabs v, alt_now, now - since)))))"

lemma descent_poll_feed:
  "descent_poll s = Done r s' \<Longrightarrow> length (feed s') < length (feed s)"
  by (auto simp: descent_poll_def vertical_speed_def bind_def return_def raise_def
      py_div_def sleep_def slept_def time_time_def apogee_time_or_now_def
      split: res.splits list.splits option.splits if_splits dest!: level_feed)

function deploy_loop :: "FlightController \<Rightarrow> (unit, FlightController) res" where
  "deploy_loop self =
     (case descent_poll self of
        Done (v_down, alt_now, t_since_apogee) s1 \<Rightarrow>
          if (fle v_down (Fin 30) \<and> flt alt_now (Fin 200)) \<or> t_since_apogee > 9 then
            bind (relay_open (c s1) ''parachute'') (\<lambda>_. set_state CHUTE_DEPLOYED) s1
          else deploy_loop (slept (1 / 2) s1)
      | Raised e s1 \<Rightarrow> Raised e s1
      | Pending s1 \<Rightarrow> Pending s1)"
  by pat_completeness auto
termination
  by (relation "measure (\<lambda>s. length (feed s))") (auto simp: slept_feed dest: descent_poll_feed)

declare deploy_loop.simps [simp del]

function landing_loop :: "FlightController \<Rightarrow> (unit, FlightController) res" where
  "landing_loop self =
     (case altitude self of
        Done alt1 s1 \<Rightarrow>
          (case altitude (slept 1 s1) of
             Done alt2 s2 \<Rightarrow>
               if flt (fabs (fsub alt2 alt1)) (Fin (1 / 2)) then
                 Done () (s2\<lparr>state := LANDED, landed := True\<rparr>)
               else landing_loop s2
           | Raised e s2 \<Rightarrow> Raised e s2
           | Pending s2 \<Rightarrow> Pending s2)
      | Raised e s1 \<Rightarrow> Raised e s1
      | Pending s1 \<Rightarrow> Pending s1)"
  by pat_completeness auto
termination
  by (relation "measure (\<lambda>s. length (feed s))")
     (auto dest!: level_feed simp: slept_feed)

declare landing_loop.simps [simp del]

definition descent_and_chute :: "FlightController \<Rightarrow> (unit, FlightController) res" where
  "descent_and_chute self =
     (if state self = ABORT then return () self
      else if flt (case apogee_alt self of None \<Rightarrow> Fin 0 | Some a \<Rightarrow> a) (Fin 5) then
        Done () (self\<lparr>state := LANDED, landed := True\<rparr>)
      else
        bind (set_state DESCENT) (\<lambda>_.
        bind deploy_loop (\<lambda>_.
        landing_loop)) self)"

section \<open>Vocabulary of the properties\<close>

text \<open>
  The float that \<open>_telem(key, 0.0)\<close> returns on store contents \<open>d\<close>: the stored
  value as a number, \<open>0.0\<close> when the key is absent or its value is not a number.
\<close>

definition reading :: "pydict \<Rightarrow> string \<Rightarrow> pyfloat" where
  "reading d key =
     (case py_float (dict_get d key (PyFloat (Fin 0))) of Inr x \<Rightarrow> x | Inl e \<Rightarrow> Fin 0)"

text \<open>
  The specification's reading of "closed", on store contents \<open>d\<close>: position telemetry
  for \<open>name + "_pos"\<close> has arrived, is a (finite) number, and lies less than 5 raw units
  from the configured closed position.
\<close>

definition spec_servo_closed :: "RocketClient \<Rightarrow> pydict \<Rightarrow> string \<Rightarrow> bool" where
  "spec_servo_closed cl d name =
     (\<exists>v x t. d (name @ ''_pos'') = Some v \<and> py_float v = Inr (Fin x)
        \<and> servo_closed_pos cl name = Some t \<and> \<bar>x - real_of_int t\<bar> < 5)"

text \<open>
  The two pressure conditions of \<open>heat_oxidizer\<close>, on the store contents a poll reads:
  inside the ignition window of 55 to 65 bar, and at or above 90 bar.
\<close>

definition in_window :: "pydict \<Rightarrow> bool" where
  "in_window d =
     (fle (Fin 55) (reading d ''oxidizer_pressure'')
      \<and> fle (reading d ''oxidizer_pressure'') (Fin 65))"

definition overpressure :: "pydict \<Rightarrow> bool" where
  "overpressure d = fle (Fin 90) (reading d ''oxidizer_pressure'')"

text \<open>
  What one pass of the deploy loop of \<open>descent_and_chute\<close> observes: the store
  contents and clock at the two altitude samples of \<open>vertical_speed\<close>, the store
  contents at the \<open>alt_now\<close> read, and the clock read for the time since apogee.
\<close>

record poll_obs =
  obs_h1 :: pydict
  obs_t1 :: real
  obs_h2 :: pydict
  obs_t2 :: real
  obs_alt :: pydict
  obs_now :: real

definition poll_feed :: "poll_obs list \<Rightarrow> pydict list" where
  "poll_feed os = concat (map (\<lambda>ob. [obs_h1 ob, obs_h2 ob, obs_alt ob]) os)"

definition poll_clock :: "poll_obs list \<Rightarrow> real list" where
  "poll_clock os = concat (map (\<lambda>ob. [obs_t1 ob, obs_t2 ob, obs_now ob]) os)"

text \<open>The downward speed of a poll: the absolute value of the sampled vertical rate.\<close>

definition v_down :: "poll_obs \<Rightarrow> pyfloat" where
  "v_down ob =
     fabs (fdiv (fsub (reading (obs_h2 ob) ''altitude'') (reading (obs_h1 ob) ''altitude''))
                (max (obs_t2 ob - obs_t1 ob) (1 / 1000000)))"

text \<open>
  The deploy condition at a poll, for apogee time \<open>ta\<close>: speed at most 30 m/s and
  altitude below 200 m, or more than 9 s since apogee.
\<close>

definition deploy_condition :: "real \<Rightarrow> poll_obs \<Rightarrow> bool" where
  "deploy_condition ta ob =
     ((fle (v_down ob) (Fin 30) \<and> flt (reading (obs_alt ob) ''altitude'') (Fin 200))
      \<or> 9 < obs_now ob - ta)"

text \<open>Whether an outcome is an exception of the class named.\<close>

fun raises_class :: "('v, 's) res \<Rightarrow> string \<Rightarrow> bool" where
  "raises_class (Raised e s) cls = (exn_class e = cls)"
| "raises_class (Done v s) cls = False"
| "raises_class (Pending s) cls = False"


text \<open>
  A configuration with the devices the mission names, and a controller on it with a given
  state and given observations to come.
\<close>

definition example_client :: RocketClient where
  "example_client =
     \<lparr>servo_map = map_of [(''fuel_intake'', 0), (''oxidizer_intake'', 1),
                           (''fuel_main'', 2), (''oxidizer_main'', 3)],
      relay_map = map_of [(''oxidizer_heater'', 0), (''igniter'', 1), (''parachute'', 2)],
      sensor_map = map_of [(''fuel_level'', 0), (''oxidizer_level'', 1),
                            (''altitude'', 2), (''oxidizer_pressure'', 3)],
      servo_open_pos = map_of [(''fuel_intake'', 0), (''oxidizer_intake'', 0),
                                (''fuel_main'', 0), (''oxidizer_main'', 0)],
      servo_closed_pos = map_of [(''fuel_intake'', 100), (''oxidizer_intake'', 100),
                                  (''fuel_main'', 100), (''oxidizer_main'', 100)]\<rparr>"

definition example_controller ::
  "FlightState \<Rightarrow> pydict list \<Rightarrow> real list \<Rightarrow> FlightController" where
  "example_controller st fd ck =
     \<lparr>feed = fd, clock = ck, trace = [], c = example_client, state = st,
      apogee_alt = None, apogee_time = None, landed = False\<rparr>"

text \<open>Store contents that hold one sensor's successive readings.\<close>

definition pressure_feed :: "real list \<Rightarrow> pydict list" where
  "pressure_feed ps = map (\<lambda>p. [''oxidizer_pressure'' \<mapsto> PyFloat (Fin p)]) ps"


definition empty_world :: world where
  "empty_world = \<lparr>feed = [], clock = [], trace = []\<rparr>"

text \<open>
  A controller in descent after an apogee of 500 m at clock 1000, with given polls to come;
  and the observations of a poll at altitude \<open>h\<close>, falling at \<open>v\<close> m/s, at clock
  \<open>t\<close>.
\<close>

definition descending :: "poll_obs list \<Rightarrow> FlightController" where
  "descending os =
     (example_controller DESCENT (poll_feed os) (poll_clock os))
       \<lparr>apogee_alt := Some (Fin 500), apogee_time := Some 1000\<rparr>"

definition poll_at :: "real \<Rightarrow> real \<Rightarrow> real \<Rightarrow> poll_obs" where
  "poll_at h v t =
     \<lparr>obs_h1 = [''altitude'' \<mapsto> PyFloat (Fin (h + v / 2))], obs_t1 = t - 1 / 2,
      obs_h2 = [''altitude'' \<mapsto> PyFloat (Fin h)], obs_t2 = t,
      obs_alt = [''altitude'' \<mapsto> PyFloat (Fin h)], obs_now = t\<rparr>"

section \<open>Properties of float arithmetic\<close>

lemma float_max_big: "1000000000 \<le> float_max"
  by (simp add: float_max_def)

lemma fl_small: "\<bar>x\<bar> \<le> 1000000000 \<Longrightarrow> fl x = Fin x"
  using float_max_big by (auto simp: fl_def)

lemma window_not_over: "fle (Fin 55) p \<Longrightarrow> fle p (Fin 65) \<Longrightarrow> \<not> fle (Fin 90) p"
  by (cases p) simp_all

lemma not_below_not_above:
  "(\<not> flt p (Fin 40) \<and> \<not> flt (Fin 65) p) = (p = NaN \<or> (fle (Fin 40) p \<and> fle p (Fin 65)))"
  by (cases p) auto

lemma close_band:
  "flt (fabs (fsub p (Fin t))) (Fin 5) = (\<exists>x. p = Fin x \<and> \<bar>x - t\<bar> < 5)"
proof (cases p)
  case (Fin x)
  show ?thesis
  proof (cases "\<bar>x - t\<bar> \<le> float_max")
    case True
    then have "fl (x - t) = Fin (x - t)" by (auto simp: fl_def)
    then show ?thesis by (simp add: Fin)
  next
    case False
    then have "fl (x - t) = PInf \<or> fl (x - t) = NInf" by (auto simp: fl_def)
    moreover have "\<not> \<bar>x - t\<bar> < 5" using False float_max_big by linarith
    ultimately show ?thesis by (auto simp: Fin)
  qed
qed simp_all

section \<open>Properties of TelemetryStore\<close>

lemma run_op_length: "length h \<le> length (run_op self x h)"
  by (cases x) (simp_all add: update_def get_all_def)

lemma run_op_data:
  "data self < length h \<Longrightarrow> a < length h \<Longrightarrow> a \<noteq> data self \<Longrightarrow> run_op self x h ! a = h ! a"
  by (cases x) (simp_all add: update_def get_all_def nth_append)

lemma run_ops_keeps:
  "data self < length h \<Longrightarrow> a < length h \<Longrightarrow> a \<noteq> data self \<Longrightarrow> run_ops self xs h ! a = h ! a"
proof (induction xs arbitrary: h)
  case Nil
  then show ?case by simp
next
  case (Cons x xs)
  have len: "length h \<le> length (run_op self x h)" by (rule run_op_length)
  have "run_ops self xs (run_op self x h) ! a = run_op self x h ! a"
    using Cons.prems len by (intro Cons.IH) auto
  then show ?case using Cons.prems by (simp add: run_op_data)
qed

lemma run_ops_get:
  "data self < length h \<Longrightarrow>
   get self key d (run_ops self xs h) =
     (case last_write xs key of Some v \<Rightarrow> v | None \<Rightarrow> get self key d h)"
proof (induction xs arbitrary: h)
  case Nil
  then show ?case by simp
next
  case (Cons x xs)
  show ?case
  proof (cases x)
    case (Update k v)
    have "data self < length (update self k v h)"
      using Cons.prems by (simp add: update_def)
    from Cons.IH [OF this] show ?thesis
      using Cons.prems Update
      by (auto simp: get_def update_def dict_get_def split: option.splits)
  next
    case GetAll
    have "data self < length (snd (get_all self h))"
      using Cons.prems by (simp add: get_all_def)
    from Cons.IH [OF this] show ?thesis
      using Cons.prems GetAll
      by (auto simp: get_def get_all_def dict_get_def nth_append split: option.splits)
  qed
qed

lemma fresh_store_get:
  assumes "TelemetryStore_init h0 = (self, h)"
  shows "get self key d (run_ops self xs h) =
         (case last_write xs key of Some v \<Rightarrow> v | None \<Rightarrow> d)"
proof -
  from assms have valid: "data self < length h" and empty: "h ! data self = Map.empty"
    by (auto simp: TelemetryStore_init_def)
  from empty have g: "get self key d h = d"
    by (simp add: get_def dict_get_def)
  show ?thesis
    by (simp add: run_ops_get [OF valid] g split: option.splits)
qed

lemma get_all_eqs:
  assumes "get_all self h = (a, h')"
  shows "a = length h" and "h' = h @ [h ! data self]"
  using assms by (auto simp: get_all_def)

lemma get_all_twice:
  assumes "data self < length h" "get_all self h = (a1, h1)" "get_all self h1 = (a2, h2)"
  shows "a1 \<noteq> a2 \<and> h2 ! a1 = h2 ! a2 \<and> h2 ! a1 = h ! data self"
proof -
  note 1 = get_all_eqs [OF assms(2)] and 2 = get_all_eqs [OF assms(3)]
  show ?thesis
    using assms(1) by (simp add: 2 nth_append) (simp add: 1 nth_append)
qed

lemma snapshot_kept:
  assumes "data self < length h" "get_all self h = (a1, h1)"
  shows "run_ops self xs h1 ! a1 = h ! data self"
proof -
  note 1 = get_all_eqs [OF assms(2)]
  have "run_ops self xs h1 ! a1 = h1 ! a1"
    using assms(1) by (intro run_ops_keeps) (simp_all add: 1)
  then show ?thesis
    by (simp add: 1)
qed

lemma snapshot_independent:
  assumes "data self < length h" "get_all self h = (a1, h1)"
  shows "get self key d (dict_setitem a1 k v h1) = get self key d h"
proof -
  note 1 = get_all_eqs [OF assms(2)]
  show ?thesis
    using assms(1) by (simp add: 1 get_def dict_setitem_def nth_append)
qed

text \<open>
  C9. On a fresh store, after any sequence of \<open>update\<close> and \<open>get_all\<close> calls,
  \<open>get(key, default)\<close> returns the value most recently written under \<open>key\<close>, or
  \<open>default\<close> when \<open>key\<close> was never written. On any store, two \<open>get_all()\<close> calls
  with no \<open>update\<close> between them return two distinct dictionary objects with equal
  contents; a snapshot keeps the contents it was taken with through every later sequence
  of \<open>update\<close> and \<open>get_all\<close> calls; and writing into a snapshot does not change what
  the store returns.
\<close>

theorem C9_telemetry_store_contract:
  "(TelemetryStore_init h0 = (self, h) \<longrightarrow>
      get self key d (run_ops self xs h) =
        (case last_write xs key of Some v \<Rightarrow> v | None \<Rightarrow> d))
   \<and> (data self < length h \<and> get_all self h = (a1, h1) \<and> get_all self h1 = (a2, h2) \<longrightarrow>
        a1 \<noteq> a2 \<and> h2 ! a1 = h2 ! a2 \<and> h2 ! a1 = h ! data self)
   \<and> (data self < length h \<and> get_all self h = (a1, h1) \<longrightarrow>
        run_ops self xs h1 ! a1 = h ! data self)
   \<and> (data self < length h \<and> get_all self h = (a1, h1) \<longrightarrow>
        get self key d (dict_setitem a1 k v h1) = get self key d h)"
  using fresh_store_get [of h0 self h key d xs] get_all_twice [of self h a1 h1 a2 h2]
    snapshot_kept [of self h a1 h1 xs] snapshot_independent [of self h a1 h1 key d k v]
  by blast

theorem C9_telemetry_store_witness:
  "TelemetryStore_init [] = (\<lparr>data = 0\<rparr>, [Map.empty])
   \<and> get \<lparr>data = 0\<rparr> ''altitude'' PyNone
       (run_ops \<lparr>data = 0\<rparr>
          [Update ''altitude'' (PyFloat (Fin 1)), GetAll, Update ''altitude'' (PyFloat (Fin 2))]
          [Map.empty]) = PyFloat (Fin 2)
   \<and> get \<lparr>data = 0\<rparr> ''fuel_level'' PyNone
       (run_ops \<lparr>data = 0\<rparr>
          [Update ''altitude'' (PyFloat (Fin 1)), GetAll, Update ''altitude'' (PyFloat (Fin 2))]
          [Map.empty]) = PyNone
   \<and> get_all \<lparr>data = 0\<rparr> [Map.empty] = (1, [Map.empty, Map.empty])
   \<and> get_all \<lparr>data = 0\<rparr> [Map.empty, Map.empty] = (2, [Map.empty, Map.empty, Map.empty])
   \<and> run_ops \<lparr>data = 0\<rparr> [Update ''altitude'' (PyFloat (Fin 1))] [Map.empty, Map.empty] ! 1
       = [Map.empty] ! data \<lparr>data = 0\<rparr>
   \<and> get \<lparr>data = 0\<rparr> ''altitude'' PyNone
       (dict_setitem 1 ''altitude'' (PyInt 7) [Map.empty, Map.empty]) = PyNone"
  using C9_telemetry_store_contract
    [of "[]" "\<lparr>data = 0\<rparr>" "[Map.empty]" "''altitude''" PyNone
        "[Update ''altitude'' (PyFloat (Fin 1)), GetAll, Update ''altitude'' (PyFloat (Fin 2))]"
        1 "[Map.empty, Map.empty]" 2 "[Map.empty, Map.empty, Map.empty]"
        "''altitude''" "PyInt 7"]
  by (simp add: TelemetryStore_init_def get_all_def get_def dict_get_def update_def
      dict_setitem_def)

section \<open>Properties of RocketClient\<close>

lemmas run_defs = bind_def return_def raise_def lookup_def subscript_def sleep_def slept_def
  time_time_def push_send_def get_telem_def telem_def as_number_def set_state_def

lemmas example_defs = example_client_def example_controller_def empty_world_def

text \<open>
  C8, as the code has it. For a name that is not in the device map, \<open>set_servo_position\<close>
  (on \<open>servo_map\<close>), \<open>relay_open\<close> and \<open>relay_close\<close> (on \<open>relay_map\<close>) fail at
  the lookup, before any frame is built or sent, with Python's \<open>KeyError\<close> for that name.
\<close>

theorem C8_unknown_device_raises_KeyError:
  "(servo_map cl name = None \<longrightarrow>
      set_servo_position cl name pos w = Raised (KeyError name) w)
   \<and> (relay_map cl name = None \<longrightarrow>
      relay_open cl name w = Raised (KeyError name) w
      \<and> relay_close cl name w = Raised (KeyError name) w)"
  by (simp add: set_servo_position_def relay_open_def relay_close_def bind_def lookup_def
      subscript_def)

theorem C8_unknown_device_witness:
  "servo_map example_client ''nozzle'' = None
   \<and> relay_map example_client ''nozzle'' = None
   \<and> set_servo_position example_client ''nozzle'' 7 empty_world
       = Raised (KeyError ''nozzle'') empty_world
   \<and> relay_open example_client ''nozzle'' empty_world = Raised (KeyError ''nozzle'') empty_world
   \<and> relay_close example_client ''nozzle'' empty_world = Raised (KeyError ''nozzle'') empty_world"
  using C8_unknown_device_raises_KeyError [of example_client "''nozzle''" 7 empty_world]
  by (simp add: example_client_def)

text \<open>
  C8, as the specification states it, fails: the exception raised for an unknown name is
  not of a class \<open>UnknownDeviceError\<close>.
\<close>

theorem C8_no_UnknownDeviceError:
  "\<not> raises_class (set_servo_position example_client ''nozzle'' 7 empty_world)
        ''UnknownDeviceError''
   \<and> raises_class (set_servo_position example_client ''nozzle'' 7 empty_world) ''KeyError''"
  by (simp add: set_servo_position_def bind_def lookup_def subscript_def example_client_def)

section \<open>Properties of FlightController\<close>

subsection \<open>Reading telemetry\<close>

lemma reading_eval:
  "feed s = d # ds \<Longrightarrow>
   bind (telem key (PyFloat (Fin 0))) as_number s = Done (reading d key) (s\<lparr>feed := ds\<rparr>)"
  by (cases "py_float (dict_get d key (PyFloat (Fin 0)))")
     (simp_all add: run_defs reading_def)

lemma reading_pending:
  "feed s = [] \<Longrightarrow> bind (telem key (PyFloat (Fin 0))) as_number s = Pending s"
  by (simp add: run_defs)

lemmas altitude_eval = reading_eval [of _ _ _ "''altitude''", folded altitude_def]
lemmas oxidizer_pressure_eval =
  reading_eval [of _ _ _ "''oxidizer_pressure''", folded oxidizer_pressure_def]
lemmas oxidizer_level_eval =
  reading_eval [of _ _ _ "''oxidizer_level''", folded oxidizer_level_def]
lemmas altitude_pending = reading_pending [of _ "''altitude''", folded altitude_def]
lemmas oxidizer_pressure_pending =
  reading_pending [of _ "''oxidizer_pressure''", folded oxidizer_pressure_def]

lemma servo_is_closed_eval:
  "feed s = d # ds \<Longrightarrow>
   servo_is_closed name s =
     (case d (name @ ''_pos'') of
        None \<Rightarrow> Done False (s\<lparr>feed := ds\<rparr>)
      | Some v \<Rightarrow>
          (case py_float v of
             Inl e \<Rightarrow> Done False (s\<lparr>feed := ds\<rparr>)
           | Inr x \<Rightarrow>
               (case servo_closed_pos (c s) name of
                  None \<Rightarrow> Raised (KeyError name) (s\<lparr>feed := ds\<rparr>)
                | Some t \<Rightarrow>
                    Done (flt (fabs (fsub x (Fin (real_of_int t)))) (Fin 5))
                         (s\<lparr>feed := ds\<rparr>))))"
  by (simp add: servo_is_closed_def run_defs dict_get_def split: option.splits sum.splits)

lemma servo_is_closed_pending:
  "feed s = [] \<Longrightarrow> servo_is_closed name s = Pending s"
  by (simp add: servo_is_closed_def run_defs)

text \<open>
  C7. On the store contents \<open>d\<close> that the call reads, \<open>servo_is_closed(name)\<close> returns
  true exactly when position telemetry under \<open>name + "_pos"\<close> has arrived, is coercible
  to a number and lies less than 5 raw units from the configured closed position; it
  returns false when no position telemetry has arrived; and it never returns true
  otherwise.
\<close>

theorem C7_servo_is_closed:
  "(feed s = d # ds \<longrightarrow>
      (servo_is_closed name s = Done True (s\<lparr>feed := ds\<rparr>)) = spec_servo_closed (c s) d name
      \<and> (d (name @ ''_pos'') = None \<longrightarrow> servo_is_closed name s = Done False (s\<lparr>feed := ds\<rparr>)))
   \<and> ((\<exists>s'. servo_is_closed name s = Done True s') \<longrightarrow>
        (\<exists>d ds. feed s = d # ds \<and> spec_servo_closed (c s) d name))"
proof (intro conjI impI)
  assume f: "feed s = d # ds"
  show "(servo_is_closed name s = Done True (s\<lparr>feed := ds\<rparr>)) = spec_servo_closed (c s) d name"
    by (auto simp: servo_is_closed_eval [OF f] spec_servo_closed_def close_band
        split: option.splits sum.splits)
next
  assume f: "feed s = d # ds" and "d (name @ ''_pos'') = None"
  then show "servo_is_closed name s = Done False (s\<lparr>feed := ds\<rparr>)"
    by (simp add: servo_is_closed_eval [OF f])
next
  assume a: "\<exists>s'. servo_is_closed name s = Done True s'"
  show "\<exists>d ds. feed s = d # ds \<and> spec_servo_closed (c s) d name"
  proof (cases "feed s")
    case Nil
    with a show ?thesis by (simp add: servo_is_closed_pending)
  next
    case (Cons d ds)
    with a show ?thesis
      by (auto simp: servo_is_closed_eval [OF Cons] spec_servo_closed_def close_band
          split: option.splits sum.splits)
  qed
qed

theorem C7_servo_is_closed_witness:
  "feed (example_controller ARMED [[''fuel_intake_pos'' \<mapsto> PyInt 98]] []) =
     [[''fuel_intake_pos'' \<mapsto> PyInt 98]]
   \<and> servo_is_closed ''fuel_intake''
        (example_controller ARMED [[''fuel_intake_pos'' \<mapsto> PyInt 98]] [])
       = Done True (example_controller ARMED [] [])
   \<and> spec_servo_closed example_client [''fuel_intake_pos'' \<mapsto> PyInt 98] ''fuel_intake''
   \<and> [''fuel_intake_pos'' \<mapsto> PyInt 98] (''oxidizer_intake'' @ ''_pos'') = None
   \<and> servo_is_closed ''oxidizer_intake''
        (example_controller ARMED [[''fuel_intake_pos'' \<mapsto> PyInt 98]] [])
       = Done False (example_controller ARMED [] [])"
proof -
  let ?d = "[''fuel_intake_pos'' \<mapsto> PyInt 98]"
  let ?s = "example_controller ARMED [?d] []"
  have f: "feed ?s = [?d]" and u: "?s\<lparr>feed := []\<rparr> = example_controller ARMED [] []"
    and cl: "c ?s = example_client"
    by (simp_all add: example_controller_def)
  have 1: "servo_is_closed ''fuel_intake'' ?s = Done True (?s\<lparr>feed := []\<rparr>)"
    by (simp add: servo_is_closed_def run_defs dict_get_def example_defs fl_small)
  have 2: "?d (''oxidizer_intake'' @ ''_pos'') = None" by simp
  from C7_servo_is_closed [of ?s ?d "[]" "''fuel_intake''"] f 1
  have 3: "spec_servo_closed example_client ?d ''fuel_intake''"
    by (simp add: cl)
  from C7_servo_is_closed [of ?s ?d "[]" "''oxidizer_intake''"] f 2
  have 4: "servo_is_closed ''oxidizer_intake'' ?s = Done False (?s\<lparr>feed := []\<rparr>)"
    by blast
  from f 1 2 3 4 show ?thesis by (simp only: u)
qed

lemma bind_Done: "m s = Done v s' \<Longrightarrow> bind m f s = f v s'"
  by (simp add: bind_def)

lemma time_time_eval: "clock s = t # ts \<Longrightarrow> time_time s = Done t (s\<lparr>clock := ts\<rparr>)"
  by (simp add: time_time_def)

lemma vertical_speed_eval:
  assumes "0 \<le> dt" "feed s = d1 # d2 # ds" "clock s = t1 # t2 # ts"
  shows "vertical_speed dt s =
       Done (fdiv (fsub (reading d2 ''altitude'') (reading d1 ''altitude''))
                  (max (t2 - t1) (1 / 1000000)))
            (s\<lparr>feed := ds, clock := ts, trace := trace s @ [Slept dt]\<rparr>)"
proof -
  have p: "max (t2 - t1) (1 / 1000000) \<noteq> 0"
    by (simp add: max_def)
  let ?s1 = "s\<lparr>feed := d2 # ds\<rparr>"
  let ?s2 = "?s1\<lparr>clock := t2 # ts\<rparr>"
  let ?s3 = "slept dt ?s2"
  let ?s4 = "?s3\<lparr>feed := ds\<rparr>"
  let ?s5 = "?s4\<lparr>clock := ts\<rparr>"
  have 1: "altitude s = Done (reading d1 ''altitude'') ?s1"
    using assms(2) by (simp add: altitude_eval)
  have 2: "time_time ?s1 = Done t1 ?s2" using assms(3) by (simp add: time_time_eval)
  have 3: "sleep dt ?s2 = Done () ?s3" using assms(1) by (simp add: sleep_def)
  have 4: "altitude ?s3 = Done (reading d2 ''altitude'') ?s4"
    by (simp add: altitude_eval slept_def)
  have 5: "time_time ?s4 = Done t2 ?s5" by (simp add: time_time_eval slept_def)
  have "vertical_speed dt s =
      py_div (fsub (reading d2 ''altitude'') (reading d1 ''altitude''))
             (max (t2 - t1) (1 / 1000000)) ?s5"
    unfolding vertical_speed_def
    by (simp only: bind_Done [of altitude, OF 1] bind_Done [of time_time, OF 2]
        bind_Done [of "sleep dt", OF 3] bind_Done [of altitude, OF 4]
        bind_Done [of time_time, OF 5])
  also have "\<dots> = Done (fdiv (fsub (reading d2 ''altitude'') (reading d1 ''altitude''))
                        (max (t2 - t1) (1 / 1000000))) ?s5"
    using p by (simp only: py_div_def return_def if_False)
  also have "?s5 = s\<lparr>feed := ds, clock := ts, trace := trace s @ [Slept dt]\<rparr>"
    by (simp add: slept_def)
  finally show ?thesis .
qed





subsection \<open>ABORT at entry\<close>

text \<open>
  The three later phases test for \<open>ABORT\<close> first and return at once: the state, the
  trace and the observations to come are untouched.
\<close>

lemma guarded_phases_keep_ABORT:
  assumes "state s = ABORT"
  shows "ignition_sequence s = Done () s" and "climb_and_detect_apogee s = Done () s"
    and "descent_and_chute s = Done () s"
  using assms
  by (simp_all add: ignition_sequence_def climb_and_detect_apogee_def descent_and_chute_def
      return_def)

text \<open>
  C1 fails for the three earlier phases, which have no such test. Entered in \<open>ABORT\<close>,
  \<open>tank_oxidizer\<close> commands the oxidizer intake open and closed and ends in
  \<open>OX_READY\<close>, \<open>tank_fuel\<close> commands the fuel intake and ends in \<open>FUEL_READY\<close>, and
  \<open>heat_oxidizer\<close> opens and closes the heater relay and ends in \<open>ARMED\<close>.
\<close>

theorem C1_unguarded_phases_leave_ABORT:
  "tank_oxidizer
     (example_controller ABORT [[''oxidizer_level'' \<mapsto> PyFloat (Fin 100)], Map.empty] [])
   = Done () ((example_controller OX_READY [] [])
       \<lparr>trace := [Sent (servo_frame 1 0), Sent (servo_frame 1 100)]\<rparr>)
   \<and> tank_fuel (example_controller ABORT [[''fuel_level'' \<mapsto> PyFloat (Fin 100)]] [])
   = Done () ((example_controller FUEL_READY [] [])
       \<lparr>trace := [Sent (servo_frame 0 0), Sent (servo_frame 0 100)]\<rparr>)
   \<and> heat_oxidizer (example_controller ABORT [[''oxidizer_pressure'' \<mapsto> PyFloat (Fin 60)]] [])
   = Done () ((example_controller ARMED [] [])
       \<lparr>trace := [Sent (relay_frame 0 OPEN), Sent (relay_frame 0 CLOSE)]\<rparr>)"
  by (simp add: tank_oxidizer_def tank_fuel_def heat_oxidizer_def run_defs dict_get_def
      example_defs oxidizer_level_def fuel_level_def oxidizer_pressure_def
      set_servo_position_def relay_open_def relay_close_def
      tank_oxidizer_loop.simps tank_fuel_loop.simps heat_oxidizer_loop.simps)

subsection \<open>Ignition\<close>

lemma servo_is_closed_spec:
  "feed s = d # ds \<Longrightarrow> servo_closed_pos (c s) name = Some t \<Longrightarrow>
   servo_is_closed name s = Done (spec_servo_closed (c s) d name) (s\<lparr>feed := ds\<rparr>)"
  by (auto simp: servo_is_closed_eval spec_servo_closed_def close_band
      split: option.splits sum.splits)

lemma servo_is_closed_trace:
  "trace (final (servo_is_closed name s)) = trace s"
  by (cases "feed s")
     (auto simp: servo_is_closed_eval servo_is_closed_pending split: option.splits sum.splits)

lemma servo_is_closed_True:
  "servo_is_closed name s = Done True s' \<Longrightarrow>
   \<exists>d ds. feed s = d # ds \<and> s' = s\<lparr>feed := ds\<rparr> \<and> spec_servo_closed (c s) d name"
  by (cases "feed s")
     (auto simp: servo_is_closed_eval servo_is_closed_pending spec_servo_closed_def
       close_band split: option.splits sum.splits)

text \<open>
  C2. When \<open>ignition_sequence\<close> runs in a state other than \<open>ABORT\<close>, both intakes
  read closed, the pressure read lies in \<open>[40, 65]\<close> and the main valves and the igniter
  are configured, it returns normally and what it has added to the trace is exactly: the
  frame setting \<open>fuel_main\<close> to its configured open position, a sleep of 0.2 s, the frame
  setting \<open>oxidizer_main\<close> to its configured open position, a sleep of 0.2 s, the frame
  opening the \<open>igniter\<close> relay; the state is then \<open>BOOST\<close>.
\<close>

theorem C2_ignition_order:
  assumes "state s \<noteq> ABORT" and "feed s = d1 # d2 # d3 # r"
    and "spec_servo_closed (c s) d1 ''fuel_intake''"
    and "spec_servo_closed (c s) d2 ''oxidizer_intake''"
    and "fle (Fin 40) (reading d3 ''oxidizer_pressure'')"
    and "fle (reading d3 ''oxidizer_pressure'') (Fin 65)"
    and "servo_map (c s) ''fuel_main'' = Some fuel_id"
    and "servo_open_pos (c s) ''fuel_main'' = Some fuel_open"
    and "servo_map (c s) ''oxidizer_main'' = Some ox_id"
    and "servo_open_pos (c s) ''oxidizer_main'' = Some ox_open"
    and "relay_map (c s) ''igniter'' = Some igniter_id"
  shows "ignition_sequence s =
     Done () (s\<lparr>feed := r,
                trace := trace s @
                  [Sent (servo_frame fuel_id fuel_open), Slept (1 / 5),
                   Sent (servo_frame ox_id ox_open), Slept (1 / 5),
                   Sent (relay_frame igniter_id OPEN)],
                state := BOOST\<rparr>)"
proof -
  from assms(3) obtain t1 where t1: "servo_closed_pos (c s) ''fuel_intake'' = Some t1"
    by (auto simp: spec_servo_closed_def)
  from assms(4) obtain t2 where t2: "servo_closed_pos (c s) ''oxidizer_intake'' = Some t2"
    by (auto simp: spec_servo_closed_def)
  let ?s0 = "s\<lparr>state := IGNITION_SEQUENCE\<rparr>"
  have 1: "servo_is_closed ''fuel_intake'' ?s0 = Done True (?s0\<lparr>feed := d2 # d3 # r\<rparr>)"
    using assms(2,3) t1 by (simp add: servo_is_closed_spec [where t = t1])
  have 2: "servo_is_closed ''oxidizer_intake'' (?s0\<lparr>feed := d2 # d3 # r\<rparr>)
           = Done True (?s0\<lparr>feed := d3 # r\<rparr>)"
    using assms(4) t2 by (simp add: servo_is_closed_spec [where t = t2])
  have 3: "oxidizer_pressure (?s0\<lparr>feed := d3 # r\<rparr>)
           = Done (reading d3 ''oxidizer_pressure'') (?s0\<lparr>feed := r\<rparr>)"
    by (simp add: oxidizer_pressure_eval)
  have 4: "\<not> flt (reading d3 ''oxidizer_pressure'') (Fin 40)"
    "\<not> flt (Fin 65) (reading d3 ''oxidizer_pressure'')"
    using assms(5,6) not_below_not_above [of "reading d3 ''oxidizer_pressure''"] by blast+
  show ?thesis
    using assms(1,7-) 4
    apply (simp add: ignition_sequence_def)
    apply (subst bind_def, simp add: set_state_def)
    apply (subst bind_def, simp add: 1)
    apply (subst bind_def, simp add: 2)
    apply (subst bind_def, simp add: 3)
    apply (simp add: run_defs set_servo_position_def relay_open_def)
    done
qed


lemma ignition_abort_cases:
  assumes "state s \<noteq> ABORT"
    and "servo_closed_pos (c s) ''fuel_intake'' = Some t1"
    and "servo_closed_pos (c s) ''oxidizer_intake'' = Some t2"
  shows "(feed s = d1 # r1 \<and> \<not> spec_servo_closed (c s) d1 ''fuel_intake'' \<longrightarrow>
           ignition_sequence s = Done () (s\<lparr>feed := r1, state := ABORT\<rparr>))
       \<and> (feed s = d1 # d2 # r2 \<and> spec_servo_closed (c s) d1 ''fuel_intake''
            \<and> \<not> spec_servo_closed (c s) d2 ''oxidizer_intake'' \<longrightarrow>
           ignition_sequence s = Done () (s\<lparr>feed := r2, state := ABORT\<rparr>))
       \<and> (feed s = d1 # d2 # d3 # r3 \<and> spec_servo_closed (c s) d1 ''fuel_intake''
            \<and> spec_servo_closed (c s) d2 ''oxidizer_intake''
            \<and> (flt (reading d3 ''oxidizer_pressure'') (Fin 40)
                 \<or> flt (Fin 65) (reading d3 ''oxidizer_pressure'')) \<longrightarrow>
           ignition_sequence s = Done () (s\<lparr>feed := r3, state := ABORT\<rparr>))"
proof -
  let ?s0 = "s\<lparr>state := IGNITION_SEQUENCE\<rparr>"
  have 1: "servo_is_closed ''fuel_intake'' ?s0 =
           Done (spec_servo_closed (c s) d1 ''fuel_intake'') (?s0\<lparr>feed := r\<rparr>)"
    if "feed s = d1 # r" for r
    using that assms(2) by (simp add: servo_is_closed_spec [where t = t1])
  have 2: "servo_is_closed ''oxidizer_intake'' (?s0\<lparr>feed := d2 # r\<rparr>)
           = Done (spec_servo_closed (c s) d2 ''oxidizer_intake'') (?s0\<lparr>feed := r\<rparr>)" for r
    using assms(3) by (simp add: servo_is_closed_spec [where t = t2])
  have 3: "oxidizer_pressure (?s0\<lparr>feed := d3 # r\<rparr>)
           = Done (reading d3 ''oxidizer_pressure'') (?s0\<lparr>feed := r\<rparr>)" for r
    by (simp add: oxidizer_pressure_eval)
  have a: "ignition_sequence s = Done () (s\<lparr>feed := r1, state := ABORT\<rparr>)"
    if "feed s = d1 # r1" "\<not> spec_servo_closed (c s) d1 ''fuel_intake''"
    using assms(1) that
    apply (simp add: ignition_sequence_def)
    apply (subst bind_def, simp add: set_state_def)
    apply (subst bind_def, simp add: 1 set_state_def)
    done
  have b: "ignition_sequence s = Done () (s\<lparr>feed := r2, state := ABORT\<rparr>)"
    if "feed s = d1 # d2 # r2" "spec_servo_closed (c s) d1 ''fuel_intake''"
       "\<not> spec_servo_closed (c s) d2 ''oxidizer_intake''"
    using assms(1) that
    apply (simp add: ignition_sequence_def)
    apply (subst bind_def, simp add: set_state_def)
    apply (subst bind_def, simp add: 1)
    apply (subst bind_def, simp add: 2 set_state_def)
    done
  have c: "ignition_sequence s = Done () (s\<lparr>feed := r3, state := ABORT\<rparr>)"
    if "feed s = d1 # d2 # d3 # r3" "spec_servo_closed (c s) d1 ''fuel_intake''"
       "spec_servo_closed (c s) d2 ''oxidizer_intake''"
       "flt (reading d3 ''oxidizer_pressure'') (Fin 40)
          \<or> flt (Fin 65) (reading d3 ''oxidizer_pressure'')"
    using assms(1) that
    apply (simp add: ignition_sequence_def)
    apply (subst bind_def, simp add: set_state_def)
    apply (subst bind_def, simp add: 1)
    apply (subst bind_def, simp add: 2)
    apply (subst bind_def, simp add: 3 set_state_def)
    apply auto
    done
  from a b c show ?thesis by blast
qed

lemma ignition_commands_only:
  assumes "trace (final (ignition_sequence s)) \<noteq> trace s"
  shows "\<exists>d1 d2 d3 r3. feed s = d1 # d2 # d3 # r3
           \<and> spec_servo_closed (c s) d1 ''fuel_intake''
           \<and> spec_servo_closed (c s) d2 ''oxidizer_intake''
           \<and> \<not> flt (reading d3 ''oxidizer_pressure'') (Fin 40)
           \<and> \<not> flt (Fin 65) (reading d3 ''oxidizer_pressure'')"
proof -
  let ?s0 = "s\<lparr>state := IGNITION_SEQUENCE\<rparr>"
  from assms have na: "state s \<noteq> ABORT"
    by (auto simp: ignition_sequence_def return_def)
  obtain sa where 1: "servo_is_closed ''fuel_intake'' ?s0 = Done True sa"
    using assms na
    apply (simp add: ignition_sequence_def)
    apply (subst (asm) bind_def, simp add: set_state_def)
    apply (subst (asm) bind_def)
    using servo_is_closed_trace [of "''fuel_intake''" ?s0]
    apply (cases "servo_is_closed ''fuel_intake'' ?s0")
      apply (auto simp: set_state_def split: if_splits)
    done
  from servo_is_closed_True [OF 1] obtain d1 r1 where
    f1: "feed s = d1 # r1" and sa: "sa = ?s0\<lparr>feed := r1\<rparr>"
    and c1: "spec_servo_closed (c s) d1 ''fuel_intake''" by auto
  obtain sb where 2: "servo_is_closed ''oxidizer_intake'' sa = Done True sb"
    using assms na
    apply (simp add: ignition_sequence_def)
    apply (subst (asm) bind_def, simp add: set_state_def)
    apply (subst (asm) bind_def, simp add: 1)
    apply (subst (asm) bind_def)
    using servo_is_closed_trace [of "''oxidizer_intake''" sa]
    apply (cases "servo_is_closed ''oxidizer_intake'' sa")
      apply (auto simp: set_state_def sa split: if_splits)
    done
  from servo_is_closed_True [OF 2] obtain d2 r2 where
    f2: "r1 = d2 # r2" and sb: "sb = ?s0\<lparr>feed := r2\<rparr>"
    and c2: "spec_servo_closed (c s) d2 ''oxidizer_intake''" by (auto simp: sa)
  have "\<exists>d3 r3. r2 = d3 # r3 \<and> \<not> flt (reading d3 ''oxidizer_pressure'') (Fin 40)
          \<and> \<not> flt (Fin 65) (reading d3 ''oxidizer_pressure'')"
  proof (cases r2)
    case Nil
    with assms na show ?thesis
      apply (simp add: ignition_sequence_def)
      apply (subst (asm) bind_def, simp add: set_state_def)
      apply (subst (asm) bind_def, simp add: 1)
      apply (subst (asm) bind_def, simp add: 2)
      apply (subst (asm) bind_def, simp add: sb oxidizer_pressure_pending)
      done
  next
    case (Cons d3 r3)
    with assms na show ?thesis
      apply (simp add: ignition_sequence_def)
      apply (subst (asm) bind_def, simp add: set_state_def)
      apply (subst (asm) bind_def, simp add: 1)
      apply (subst (asm) bind_def, simp add: 2)
      apply (subst (asm) bind_def, simp add: sb oxidizer_pressure_eval)
      apply (auto simp: set_state_def split: if_splits)
      done
  qed
  with f1 f2 c1 c2 show ?thesis by auto
qed



lemma example_closed:
  "spec_servo_closed example_client [''fuel_intake_pos'' \<mapsto> PyInt 100] ''fuel_intake''"
  "spec_servo_closed example_client [''oxidizer_intake_pos'' \<mapsto> PyInt 100] ''oxidizer_intake''"
  "\<not> spec_servo_closed example_client [''fuel_intake_pos'' \<mapsto> PyInt 80] ''fuel_intake''"
  by (simp_all add: spec_servo_closed_def example_client_def)

theorem C2_ignition_order_witness:
  "ignition_sequence
     (example_controller ARMED
        [[''fuel_intake_pos'' \<mapsto> PyInt 100], [''oxidizer_intake_pos'' \<mapsto> PyInt 100],
         [''oxidizer_pressure'' \<mapsto> PyFloat (Fin 50)]] [])
   = Done () ((example_controller BOOST [] [])
       \<lparr>trace := [Sent (servo_frame 2 0), Slept (1 / 5), Sent (servo_frame 3 0),
                  Slept (1 / 5), Sent (relay_frame 1 OPEN)]\<rparr>)"
proof -
  let ?d1 = "[''fuel_intake_pos'' \<mapsto> PyInt 100]"
  let ?d2 = "[''oxidizer_intake_pos'' \<mapsto> PyInt 100]"
  let ?d3 = "[''oxidizer_pressure'' \<mapsto> PyFloat (Fin 50)]"
  let ?s = "example_controller ARMED [?d1, ?d2, ?d3] []"
  have cl: "c ?s = example_client" by (simp add: example_controller_def)
  have "ignition_sequence ?s =
     Done () (?s\<lparr>feed := [],
                trace := trace ?s @
                  [Sent (servo_frame 2 0), Slept (1 / 5),
                   Sent (servo_frame 3 0), Slept (1 / 5),
                   Sent (relay_frame 1 OPEN)],
                state := BOOST\<rparr>)"
  proof (rule C2_ignition_order)
    show "state ?s \<noteq> ABORT" by (simp add: example_controller_def)
    show "feed ?s = [?d1, ?d2, ?d3]" by (simp add: example_controller_def)
    show "spec_servo_closed (c ?s) ?d1 ''fuel_intake''"
      "spec_servo_closed (c ?s) ?d2 ''oxidizer_intake''"
      by (simp_all only: cl example_closed)
    show "fle (Fin 40) (reading ?d3 ''oxidizer_pressure'')"
      "fle (reading ?d3 ''oxidizer_pressure'') (Fin 65)"
      by (simp_all add: reading_def dict_get_def)
    show "servo_map (c ?s) ''fuel_main'' = Some 2" "servo_open_pos (c ?s) ''fuel_main'' = Some 0"
      "servo_map (c ?s) ''oxidizer_main'' = Some 3"
      "servo_open_pos (c ?s) ''oxidizer_main'' = Some 0"
      "relay_map (c ?s) ''igniter'' = Some 1"
      by (simp_all add: example_defs)
  qed
  then show ?thesis by (simp add: example_controller_def)
qed

text \<open>
  The heating phase tests its window positively, \<open>55.0 <= p <= 65.0\<close>, which a NaN
  reading fails: on a NaN pressure \<open>heat_oxidizer\<close> keeps polling and never arms.
\<close>

lemma heating_never_arms_on_NaN:
  "heat_oxidizer (example_controller FUEL_READY [[''oxidizer_pressure'' \<mapsto> PyFloat NaN]] [])
   = Pending ((example_controller HEATING [] [])
       \<lparr>trace := [Sent (relay_frame 0 OPEN), Slept (1 / 5)]\<rparr>)"
  by (simp add: heat_oxidizer_def run_defs dict_get_def example_defs oxidizer_pressure_def
      relay_open_def heat_oxidizer_loop.simps)

text \<open>
  C4 fails for a pressure reading that is NaN. \<open>ignition_sequence\<close> rejects a pressure
  only by \<open>p < 40.0\<close> and \<open>p > 65.0\<close>, and both comparisons are false on NaN:
  with both intakes reading closed and a NaN pressure, which is not in \<open>[40, 65]\<close>,
  the run opens \<open>fuel_main\<close> and \<open>oxidizer_main\<close>, enables the igniter and
  ends in \<open>BOOST\<close>.
\<close>

theorem C4_NaN_pressure_ignites:
  "ignition_sequence
     (example_controller ARMED
        [[''fuel_intake_pos'' \<mapsto> PyInt 100], [''oxidizer_intake_pos'' \<mapsto> PyInt 100],
         [''oxidizer_pressure'' \<mapsto> PyFloat NaN]] [])
   = Done () ((example_controller BOOST [] [])
       \<lparr>trace := [Sent (servo_frame 2 0), Slept (1 / 5), Sent (servo_frame 3 0),
                  Slept (1 / 5), Sent (relay_frame 1 OPEN)]\<rparr>)
   \<and> reading [''oxidizer_pressure'' \<mapsto> PyFloat NaN] ''oxidizer_pressure'' = NaN
   \<and> \<not> fle (Fin 40) NaN \<and> \<not> fle NaN (Fin 65)"
  by (simp add: ignition_sequence_def servo_is_closed_def run_defs dict_get_def example_defs
      oxidizer_pressure_def set_servo_position_def relay_open_def reading_def fl_small)

subsection \<open>Oxidizer heating\<close>

lemma heat_loop_step:
  assumes "feed s = x # rest" "\<not> in_window x" "\<not> overpressure x"
  shows "heat_oxidizer_loop s = heat_oxidizer_loop (slept (1 / 5) (s\<lparr>feed := rest\<rparr>))"
proof -
  have nw: "\<not> (fle (Fin 55) (reading x ''oxidizer_pressure'')
               \<and> fle (reading x ''oxidizer_pressure'') (Fin 65))"
    and no: "\<not> fle (Fin 90) (reading x ''oxidizer_pressure'')"
    using assms(2,3) by (simp_all add: in_window_def overpressure_def)
  show ?thesis
    by (subst heat_oxidizer_loop.simps)
       (simp add: oxidizer_pressure_eval [OF assms(1)] nw no)
qed

lemma heat_loop_stop:
  assumes "feed s = d # post" "in_window d \<or> overpressure d"
  shows "heat_oxidizer_loop s =
     Done () (s\<lparr>feed := post, state := (if overpressure d then ABORT else state s)\<rparr>)"
  using assms(2)
  by (subst heat_oxidizer_loop.simps)
     (auto simp: oxidizer_pressure_eval [OF assms(1)] in_window_def overpressure_def
       dest: window_not_over)

lemma heat_loop_waits:
  "feed s = pre \<Longrightarrow> \<forall>x\<in>set pre. \<not> in_window x \<and> \<not> overpressure x \<Longrightarrow>
   heat_oxidizer_loop s =
     Pending (s\<lparr>feed := [], trace := trace s @ replicate (length pre) (Slept (1 / 5))\<rparr>)"
proof (induction pre arbitrary: s)
  case Nil
  then show ?case
    by (subst heat_oxidizer_loop.simps) (simp add: oxidizer_pressure_pending)
next
  case (Cons x pre)
  let ?s1 = "slept (1 / 5) (s\<lparr>feed := pre\<rparr>)"
  have f1: "feed ?s1 = pre" by (simp add: slept_def)
  have step: "heat_oxidizer_loop s = heat_oxidizer_loop ?s1"
    using Cons.prems by (intro heat_loop_step) auto
  show ?case
    using Cons.IH [OF f1] Cons.prems(2)
    by (simp add: step slept_def replicate_append_same)
qed

lemma heat_loop_decides:
  "feed s = pre @ d # post \<Longrightarrow> \<forall>x\<in>set pre. \<not> in_window x \<and> \<not> overpressure x \<Longrightarrow>
   in_window d \<or> overpressure d \<Longrightarrow>
   heat_oxidizer_loop s =
     Done () (s\<lparr>feed := post, trace := trace s @ replicate (length pre) (Slept (1 / 5)),
                state := (if overpressure d then ABORT else state s)\<rparr>)"
proof (induction pre arbitrary: s)
  case Nil
  then show ?case
    by (simp add: heat_loop_stop)
next
  case (Cons x pre)
  let ?s1 = "slept (1 / 5) (s\<lparr>feed := pre @ d # post\<rparr>)"
  have f1: "feed ?s1 = pre @ d # post" by (simp add: slept_def)
  have step: "heat_oxidizer_loop s = heat_oxidizer_loop ?s1"
    using Cons.prems by (intro heat_loop_step) auto
  show ?case
    using Cons.IH [OF f1] Cons.prems(2,3)
    by (simp add: step slept_def replicate_append_same)
qed


lemma heat_loop_armed:
  "feed s = pre @ d # post \<Longrightarrow> in_window d \<Longrightarrow> \<forall>x\<in>set pre. \<not> overpressure x \<Longrightarrow>
   \<exists>k post'. heat_oxidizer_loop s =
     Done () (s\<lparr>feed := post', trace := trace s @ replicate k (Slept (1 / 5))\<rparr>)"
proof (induction pre arbitrary: s)
  case Nil
  have "\<not> overpressure d"
    using Nil.prems(2) by (auto simp: in_window_def overpressure_def dest: window_not_over)
  with Nil.prems have "heat_oxidizer_loop s =
      Done () (s\<lparr>feed := post, trace := trace s @ replicate 0 (Slept (1 / 5))\<rparr>)"
    by (simp add: heat_loop_stop)
  then show ?case by blast
next
  case (Cons x pre)
  have nx: "\<not> overpressure x" using Cons.prems(3) by simp
  show ?case
  proof (cases "in_window x")
    case True
    with Cons.prems(1) nx have "heat_oxidizer_loop s =
        Done () (s\<lparr>feed := pre @ d # post, trace := trace s @ replicate 0 (Slept (1 / 5))\<rparr>)"
      by (simp add: heat_loop_stop)
    then show ?thesis by blast
  next
    case False
    let ?s1 = "slept (1 / 5) (s\<lparr>feed := pre @ d # post\<rparr>)"
    have f1: "feed ?s1 = pre @ d # post" by (simp add: slept_def)
    have step: "heat_oxidizer_loop s = heat_oxidizer_loop ?s1"
      using Cons.prems(1) False nx by (intro heat_loop_step) auto
    from Cons.IH [OF f1 Cons.prems(2)] Cons.prems(3)
    obtain k post' where "heat_oxidizer_loop ?s1 =
        Done () (?s1\<lparr>feed := post', trace := trace ?s1 @ replicate k (Slept (1 / 5))\<rparr>)"
      by auto
    then have "heat_oxidizer_loop s =
        Done () (s\<lparr>feed := post', trace := trace s @ replicate (Suc k) (Slept (1 / 5))\<rparr>)"
      by (simp add: step slept_def)
    then show ?thesis by blast
  qed
qed

lemma heat_loop_aborts:
  "feed s = pre @ d # post \<Longrightarrow> overpressure d \<Longrightarrow> \<forall>x\<in>set pre. \<not> in_window x \<Longrightarrow>
   \<exists>k post'. heat_oxidizer_loop s =
     Done () (s\<lparr>feed := post', trace := trace s @ replicate k (Slept (1 / 5)),
                state := ABORT\<rparr>)"
proof (induction pre arbitrary: s)
  case Nil
  then have "heat_oxidizer_loop s =
      Done () (s\<lparr>feed := post, trace := trace s @ replicate 0 (Slept (1 / 5)), state := ABORT\<rparr>)"
    by (simp add: heat_loop_stop)
  then show ?case by blast
next
  case (Cons x pre)
  have nx: "\<not> in_window x" using Cons.prems(3) by simp
  show ?case
  proof (cases "overpressure x")
    case True
    with Cons.prems(1) have "heat_oxidizer_loop s =
        Done () (s\<lparr>feed := pre @ d # post, trace := trace s @ replicate 0 (Slept (1 / 5)),
                   state := ABORT\<rparr>)"
      by (simp add: heat_loop_stop)
    then show ?thesis by blast
  next
    case False
    let ?s1 = "slept (1 / 5) (s\<lparr>feed := pre @ d # post\<rparr>)"
    have f1: "feed ?s1 = pre @ d # post" by (simp add: slept_def)
    have step: "heat_oxidizer_loop s = heat_oxidizer_loop ?s1"
      using Cons.prems(1) False nx by (intro heat_loop_step) auto
    from Cons.IH [OF f1 Cons.prems(2)] Cons.prems(3)
    obtain k post' where "heat_oxidizer_loop ?s1 =
        Done () (?s1\<lparr>feed := post', trace := trace ?s1 @ replicate k (Slept (1 / 5)),
                    state := ABORT\<rparr>)"
      by auto
    then have "heat_oxidizer_loop s =
        Done () (s\<lparr>feed := post', trace := trace s @ replicate (Suc k) (Slept (1 / 5)),
                   state := ABORT\<rparr>)"
      by (simp add: step slept_def)
    then show ?thesis by blast
  qed
qed

lemma heat_loop_outcome:
  "(\<exists>k. heat_oxidizer_loop s =
         Pending (s\<lparr>feed := [], trace := trace s @ replicate k (Slept (1 / 5))\<rparr>))
   \<or> (\<exists>k post' st. heat_oxidizer_loop s =
         Done () (s\<lparr>feed := post', trace := trace s @ replicate k (Slept (1 / 5)), state := st\<rparr>))"
proof (cases "\<exists>x\<in>set (feed s). in_window x \<or> overpressure x")
  case False
  then have "\<forall>x\<in>set (feed s). \<not> in_window x \<and> \<not> overpressure x" by blast
  from heat_loop_waits [OF refl this] show ?thesis by blast
next
  case True
  from split_list_first_prop [OF this] obtain pre d post where
    "feed s = pre @ d # post" "in_window d \<or> overpressure d"
    "\<forall>x\<in>set pre. \<not> (in_window x \<or> overpressure x)" by blast
  then have "heat_oxidizer_loop s =
     Done () (s\<lparr>feed := post, trace := trace s @ replicate (length pre) (Slept (1 / 5)),
                state := (if overpressure d then ABORT else state s)\<rparr>)"
    by (intro heat_loop_decides) auto
  then show ?thesis by blast
qed

lemma heat_oxidizer_unfold:
  assumes "relay_map (c s) ''oxidizer_heater'' = Some hid"
  shows "heat_oxidizer s =
     (case heat_oxidizer_loop
             (s\<lparr>state := HEATING, trace := trace s @ [Sent (relay_frame hid OPEN)]\<rparr>) of
        Done u s2 \<Rightarrow>
          Done () (s2\<lparr>trace := trace s2 @ [Sent (relay_frame hid CLOSE)],
                     state := (if state s2 = ABORT then ABORT else ARMED)\<rparr>)
      | Raised e s2 \<Rightarrow> Raised e s2
      | Pending s2 \<Rightarrow> Pending s2)"
proof -
  let ?s1 = "s\<lparr>state := HEATING, trace := trace s @ [Sent (relay_frame hid OPEN)]\<rparr>"
  have "heat_oxidizer s =
     bind heat_oxidizer_loop (\<lambda>_.
     bind (relay_close (c s) ''oxidizer_heater'') (\<lambda>_ s.
     if state s \<noteq> ABORT then set_state ARMED s else return () s)) ?s1"
    using assms
    by (simp add: heat_oxidizer_def relay_open_def bind_def set_state_def lookup_def
        subscript_def push_send_def)
  also have "\<dots> = (case heat_oxidizer_loop ?s1 of
        Done u s2 \<Rightarrow>
          Done () (s2\<lparr>trace := trace s2 @ [Sent (relay_frame hid CLOSE)],
                     state := (if state s2 = ABORT then ABORT else ARMED)\<rparr>)
      | Raised e s2 \<Rightarrow> Raised e s2
      | Pending s2 \<Rightarrow> Pending s2)"
    using assms
    by (cases "heat_oxidizer_loop ?s1")
       (simp_all add: relay_close_def bind_def set_state_def lookup_def
        subscript_def push_send_def return_def)
  finally show ?thesis .
qed


lemma heat_oxidizer_armed:
  assumes "relay_map (c s) ''oxidizer_heater'' = Some hid"
    and "feed s = pre @ d # post" "in_window d" "\<forall>x\<in>set pre. \<not> overpressure x"
  shows "\<exists>s'. heat_oxidizer s = Done () s' \<and> state s' = ARMED"
proof -
  let ?s1 = "s\<lparr>state := HEATING, trace := trace s @ [Sent (relay_frame hid OPEN)]\<rparr>"
  have "feed ?s1 = pre @ d # post" using assms(2) by simp
  from heat_loop_armed [OF this assms(3,4)] obtain s2 where
    "heat_oxidizer_loop ?s1 = Done () s2" "state s2 = HEATING" by force
  then show ?thesis by (simp add: heat_oxidizer_unfold [OF assms(1)])
qed

lemma heat_oxidizer_aborts:
  assumes "relay_map (c s) ''oxidizer_heater'' = Some hid"
    and "feed s = pre @ d # post" "overpressure d" "\<forall>x\<in>set pre. \<not> in_window x"
  shows "\<exists>s'. heat_oxidizer s = Done () s' \<and> state s' = ABORT"
proof -
  let ?s1 = "s\<lparr>state := HEATING, trace := trace s @ [Sent (relay_frame hid OPEN)]\<rparr>"
  have "feed ?s1 = pre @ d # post" using assms(2) by simp
  from heat_loop_aborts [OF this assms(3,4)] obtain s2 where
    "heat_oxidizer_loop ?s1 = Done () s2" "state s2 = ABORT" by force
  then show ?thesis by (simp add: heat_oxidizer_unfold [OF assms(1)])
qed

lemma heat_oxidizer_exit:
  assumes "relay_map (c s) ''oxidizer_heater'' = Some hid"
  shows "heat_oxidizer s \<noteq> Raised e s'"
    and "heat_oxidizer s = Done () s' \<Longrightarrow>
         \<exists>k. trace s' = trace s @ Sent (relay_frame hid OPEN) # replicate k (Slept (1 / 5))
                          @ [Sent (relay_frame hid CLOSE)]"
proof -
  let ?s1 = "s\<lparr>state := HEATING, trace := trace s @ [Sent (relay_frame hid OPEN)]\<rparr>"
  from heat_loop_outcome [of ?s1]
  consider k where "heat_oxidizer_loop ?s1 =
         Pending (?s1\<lparr>feed := [], trace := trace ?s1 @ replicate k (Slept (1 / 5))\<rparr>)"
    | k post' st where "heat_oxidizer_loop ?s1 =
         Done () (?s1\<lparr>feed := post', trace := trace ?s1 @ replicate k (Slept (1 / 5)),
                    state := st\<rparr>)"
    by blast
  then have "heat_oxidizer s \<noteq> Raised e s' \<and> (heat_oxidizer s = Done () s' \<longrightarrow>
         (\<exists>k. trace s' = trace s @ Sent (relay_frame hid OPEN) # replicate k (Slept (1 / 5))
                          @ [Sent (relay_frame hid CLOSE)]))"
  proof cases
    case 1
    then show ?thesis by (simp add: heat_oxidizer_unfold [OF assms(1)])
  next
    case 2
    then show ?thesis by (auto simp: heat_oxidizer_unfold [OF assms(1)])
  qed
  then show "heat_oxidizer s \<noteq> Raised e s'"
    and "heat_oxidizer s = Done () s' \<Longrightarrow>
         \<exists>k. trace s' = trace s @ Sent (relay_frame hid OPEN) # replicate k (Slept (1 / 5))
                          @ [Sent (relay_frame hid CLOSE)]"
    by blast+
qed

lemma heater_closed_once:
  "count_list (Sent (relay_frame hid OPEN) # replicate k (Slept (1 / 5))
                 @ [Sent (relay_frame hid CLOSE)]) (Sent (relay_frame hid CLOSE)) = 1"
  by (induction k) (simp_all add: relay_frame_def)

text \<open>
  C3. With the heater relay configured, for every sequence of store contents polled:
  if a poll reads a pressure in \<open>[55, 65]\<close> and no earlier poll read 90 or more,
  \<open>heat_oxidizer\<close> returns with state \<open>ARMED\<close>; if a poll reads 90 or more and no
  earlier poll read a pressure in \<open>[55, 65]\<close>, it returns with state \<open>ABORT\<close>, not
  \<open>ARMED\<close>; it never raises; and whenever it returns, what it has added to the trace is
  the heater relay's OPEN frame, some sleeps of 0.2 s and then the heater relay's CLOSE
  frame, so the CLOSE frame is sent exactly once, last.
\<close>

theorem C3_heat_oxidizer:
  assumes "relay_map (c s) ''oxidizer_heater'' = Some hid"
  shows "(feed s = pre @ d # post \<and> in_window d \<and> (\<forall>x\<in>set pre. \<not> overpressure x) \<longrightarrow>
            (\<exists>s'. heat_oxidizer s = Done () s' \<and> state s' = ARMED))
       \<and> (feed s = pre @ d # post \<and> overpressure d \<and> (\<forall>x\<in>set pre. \<not> in_window x) \<longrightarrow>
            (\<exists>s'. heat_oxidizer s = Done () s' \<and> state s' = ABORT \<and> state s' \<noteq> ARMED))
       \<and> (\<forall>e s'. heat_oxidizer s \<noteq> Raised e s')
       \<and> (\<forall>s'. heat_oxidizer s = Done () s' \<longrightarrow>
            (\<exists>k. trace s' = trace s @ Sent (relay_frame hid OPEN) # replicate k (Slept (1 / 5))
                          @ [Sent (relay_frame hid CLOSE)])
            \<and> count_list (drop (length (trace s)) (trace s')) (Sent (relay_frame hid CLOSE)) = 1)"
proof (intro conjI allI impI)
  assume "feed s = pre @ d # post \<and> in_window d \<and> (\<forall>x\<in>set pre. \<not> overpressure x)"
  then show "\<exists>s'. heat_oxidizer s = Done () s' \<and> state s' = ARMED"
    using heat_oxidizer_armed [OF assms] by blast
next
  assume "feed s = pre @ d # post \<and> overpressure d \<and> (\<forall>x\<in>set pre. \<not> in_window x)"
  then show "\<exists>s'. heat_oxidizer s = Done () s' \<and> state s' = ABORT \<and> state s' \<noteq> ARMED"
    using heat_oxidizer_aborts [OF assms] by force
next
  fix e s' show "heat_oxidizer s \<noteq> Raised e s'" by (rule heat_oxidizer_exit [OF assms])
next
  fix s' assume "heat_oxidizer s = Done () s'"
  then show "\<exists>k. trace s' = trace s @ Sent (relay_frame hid OPEN) # replicate k (Slept (1 / 5))
                          @ [Sent (relay_frame hid CLOSE)]"
    by (rule heat_oxidizer_exit [OF assms])
next
  fix s' assume "heat_oxidizer s = Done () s'"
  from heat_oxidizer_exit(2) [OF assms this] obtain k where
    "trace s' = trace s @ Sent (relay_frame hid OPEN) # replicate k (Slept (1 / 5))
                          @ [Sent (relay_frame hid CLOSE)]" ..
  then show "count_list (drop (length (trace s)) (trace s')) (Sent (relay_frame hid CLOSE)) = 1"
    using heater_closed_once [of hid k] by simp
qed

theorem C3_heat_oxidizer_witness:
  "heat_oxidizer (example_controller FUEL_READY (pressure_feed [10, 30, 56, 61]) [])
     = Done () ((example_controller ARMED (pressure_feed [61]) [])
         \<lparr>trace := [Sent (relay_frame 0 OPEN), Slept (1 / 5), Slept (1 / 5),
                    Sent (relay_frame 0 CLOSE)]\<rparr>)
   \<and> in_window [''oxidizer_pressure'' \<mapsto> PyFloat (Fin 56)]
   \<and> \<not> overpressure [''oxidizer_pressure'' \<mapsto> PyFloat (Fin 10)]
   \<and> \<not> overpressure [''oxidizer_pressure'' \<mapsto> PyFloat (Fin 30)]
   \<and> heat_oxidizer (example_controller FUEL_READY (pressure_feed [10, 50, 91]) [])
     = Done () ((example_controller ABORT [] [])
         \<lparr>trace := [Sent (relay_frame 0 OPEN), Slept (1 / 5), Slept (1 / 5),
                    Sent (relay_frame 0 CLOSE)]\<rparr>)
   \<and> overpressure [''oxidizer_pressure'' \<mapsto> PyFloat (Fin 91)]
   \<and> \<not> in_window [''oxidizer_pressure'' \<mapsto> PyFloat (Fin 10)]
   \<and> \<not> in_window [''oxidizer_pressure'' \<mapsto> PyFloat (Fin 50)]
   \<and> (\<exists>s'. heat_oxidizer (example_controller FUEL_READY (pressure_feed [10, 30, 56, 61]) [])
              = Done () s' \<and> state s' = ARMED)
   \<and> (\<exists>s'. heat_oxidizer (example_controller FUEL_READY (pressure_feed [10, 50, 91]) [])
              = Done () s' \<and> state s' = ABORT \<and> state s' \<noteq> ARMED)"
proof -
  let ?a = "example_controller FUEL_READY (pressure_feed [10, 30, 56, 61]) []"
  let ?b = "example_controller FUEL_READY (pressure_feed [10, 50, 91]) []"
  have heater: "relay_map (c ?a) ''oxidizer_heater'' = Some 0"
    "relay_map (c ?b) ''oxidizer_heater'' = Some 0"
    by (simp_all add: example_defs)
  have fa: "feed ?a = pressure_feed [10, 30] @ [''oxidizer_pressure'' \<mapsto> PyFloat (Fin 56)]
                        # pressure_feed [61]"
    and fb: "feed ?b = pressure_feed [10, 50] @ [''oxidizer_pressure'' \<mapsto> PyFloat (Fin 91)] # []"
    by (simp_all add: example_controller_def pressure_feed_def)
  have w: "in_window [''oxidizer_pressure'' \<mapsto> PyFloat (Fin 56)]"
    "\<not> overpressure [''oxidizer_pressure'' \<mapsto> PyFloat (Fin 10)]"
    "\<not> overpressure [''oxidizer_pressure'' \<mapsto> PyFloat (Fin 30)]"
    "overpressure [''oxidizer_pressure'' \<mapsto> PyFloat (Fin 91)]"
    "\<not> in_window [''oxidizer_pressure'' \<mapsto> PyFloat (Fin 10)]"
    "\<not> in_window [''oxidizer_pressure'' \<mapsto> PyFloat (Fin 50)]"
    by (simp_all add: in_window_def overpressure_def reading_def dict_get_def)
  have runs: "heat_oxidizer ?a
     = Done () ((example_controller ARMED (pressure_feed [61]) [])
         \<lparr>trace := [Sent (relay_frame 0 OPEN), Slept (1 / 5), Slept (1 / 5),
                    Sent (relay_frame 0 CLOSE)]\<rparr>)"
    "heat_oxidizer ?b
     = Done () ((example_controller ABORT [] [])
         \<lparr>trace := [Sent (relay_frame 0 OPEN), Slept (1 / 5), Slept (1 / 5),
                    Sent (relay_frame 0 CLOSE)]\<rparr>)"
    by (simp_all add: heat_oxidizer_def run_defs dict_get_def example_defs pressure_feed_def
        oxidizer_pressure_def relay_open_def relay_close_def heat_oxidizer_loop.simps)
  have armed: "\<exists>s'. heat_oxidizer ?a = Done () s' \<and> state s' = ARMED"
    using C3_heat_oxidizer [OF heater(1), of "pressure_feed [10, 30]"
        "[''oxidizer_pressure'' \<mapsto> PyFloat (Fin 56)]" "pressure_feed [61]"] fa w
    by (simp add: pressure_feed_def)
  have aborted: "\<exists>s'. heat_oxidizer ?b = Done () s' \<and> state s' = ABORT \<and> state s' \<noteq> ARMED"
    using C3_heat_oxidizer [OF heater(2), of "pressure_feed [10, 50]"
        "[''oxidizer_pressure'' \<mapsto> PyFloat (Fin 91)]" "[]"] fb w
    by (simp add: pressure_feed_def)
  from runs w armed aborted show ?thesis by blast
qed

subsection \<open>Ascent and apogee\<close>






subsection \<open>Descent and parachute\<close>

lemma fle_not_flt: "fle a b \<Longrightarrow> \<not> flt b a"
  by (cases a; cases b) simp_all

lemma descent_poll_eval:
  assumes "feed s = obs_h1 ob # obs_h2 ob # obs_alt ob # rf"
    and "clock s = obs_t1 ob # obs_t2 ob # obs_now ob # rc"
    and "apogee_time s = Some ta" "ta \<noteq> 0"
  shows "descent_poll s =
     Done (v_down ob, reading (obs_alt ob) ''altitude'', obs_now ob - ta)
          (s\<lparr>feed := rf, clock := rc, trace := trace s @ [Slept (1 / 2)]\<rparr>)"
proof -
  let ?s1 = "s\<lparr>feed := obs_alt ob # rf, clock := obs_now ob # rc,
                trace := trace s @ [Slept (1 / 2)]\<rparr>"
  let ?s2 = "?s1\<lparr>feed := rf\<rparr>"
  let ?s3 = "?s2\<lparr>clock := rc\<rparr>"
  let ?v = "fdiv (fsub (reading (obs_h2 ob) ''altitude'') (reading (obs_h1 ob) ''altitude''))
                 (max (obs_t2 ob - obs_t1 ob) (1 / 1000000))"
  have 1: "vertical_speed (1 / 2) s = Done ?v ?s1"
    by (rule vertical_speed_eval [OF _ assms(1,2)]) simp
  have 2: "altitude ?s1 = Done (reading (obs_alt ob) ''altitude'') ?s2"
    by (simp add: altitude_eval)
  have 3: "time_time ?s2 = Done (obs_now ob) ?s3" by (simp add: time_time_eval)
  have 4: "apogee_time_or_now ?s3 = Done ta ?s3"
    using assms(3,4) by (simp add: apogee_time_or_now_def return_def)
  have "descent_poll s = return (fabs ?v, reading (obs_alt ob) ''altitude'', obs_now ob - ta) ?s3"
    unfolding descent_poll_def
    by (simp only: bind_Done [of "vertical_speed (1 / 2)", OF 1] bind_Done [of altitude, OF 2]
        bind_Done [of time_time, OF 3] bind_Done [of apogee_time_or_now, OF 4])
  then show ?thesis by (simp add: return_def v_down_def)
qed


lemma deploy_loop_skip:
  assumes "feed s = obs_h1 ob # obs_h2 ob # obs_alt ob # rf"
    and "clock s = obs_t1 ob # obs_t2 ob # obs_now ob # rc"
    and "apogee_time s = Some ta" "ta \<noteq> 0"
    and "\<not> deploy_condition ta ob"
  shows "deploy_loop s =
     deploy_loop (s\<lparr>feed := rf, clock := rc, trace := trace s @ [Slept (1 / 2), Slept (1 / 2)]\<rparr>)"
proof -
  have n: "\<not> ((fle (v_down ob) (Fin 30) \<and> flt (reading (obs_alt ob) ''altitude'') (Fin 200)) \<or> 9 < obs_now ob - ta)"
    using assms(5) by (simp add: deploy_condition_def)
  show ?thesis
    by (subst deploy_loop.simps)
       (simp add: descent_poll_eval [OF assms(1-4)] n slept_def)
qed

lemma deploy_loop_fire:
  assumes "feed s = obs_h1 ob # obs_h2 ob # obs_alt ob # rf"
    and "clock s = obs_t1 ob # obs_t2 ob # obs_now ob # rc"
    and "apogee_time s = Some ta" "ta \<noteq> 0"
    and "deploy_condition ta ob"
    and "relay_map (c s) ''parachute'' = Some pid"
  shows "deploy_loop s =
     Done () (s\<lparr>feed := rf, clock := rc,
                trace := trace s @ [Slept (1 / 2), Sent (relay_frame pid OPEN)],
                state := CHUTE_DEPLOYED\<rparr>)"
proof -
  have y: "(fle (v_down ob) (Fin 30) \<and> flt (reading (obs_alt ob) ''altitude'') (Fin 200)) \<or> 9 < obs_now ob - ta"
    using assms(5) by (simp add: deploy_condition_def)
  show ?thesis
    using assms(6)
    by (subst deploy_loop.simps)
       (simp add: descent_poll_eval [OF assms(1-4)] y relay_open_def bind_def lookup_def
         subscript_def push_send_def set_state_def)
qed

lemma deploy_loop_waits:
  "feed s = poll_feed os \<Longrightarrow> clock s = poll_clock os \<Longrightarrow>
   apogee_time s = Some ta \<Longrightarrow> ta \<noteq> 0 \<Longrightarrow>
   \<forall>ob\<in>set os. \<not> deploy_condition ta ob \<Longrightarrow>
   deploy_loop s =
     Pending (s\<lparr>feed := [], clock := [],
                trace := trace s @ concat (replicate (length os) [Slept (1 / 2), Slept (1 / 2)])\<rparr>)"
proof (induction os arbitrary: s)
  case Nil
  then have "descent_poll s = Pending s"
    by (simp add: descent_poll_def vertical_speed_def bind_def altitude_pending poll_feed_def)
  then show ?case
    using Nil.prems(1,2)
    by (subst deploy_loop.simps) (simp add: poll_feed_def poll_clock_def)
next
  case (Cons ob os)
  let ?s1 = "s\<lparr>feed := poll_feed os, clock := poll_clock os,
               trace := trace s @ [Slept (1 / 2), Slept (1 / 2)]\<rparr>"
  have f: "feed s = obs_h1 ob # obs_h2 ob # obs_alt ob # poll_feed os"
    and k: "clock s = obs_t1 ob # obs_t2 ob # obs_now ob # poll_clock os"
    using Cons.prems(1,2) by (simp_all add: poll_feed_def poll_clock_def)
  have n: "\<not> deploy_condition ta ob" using Cons.prems(5) by simp
  have step: "deploy_loop s = deploy_loop ?s1"
    by (rule deploy_loop_skip [OF f k Cons.prems(3,4) n])
  have "deploy_loop ?s1 =
     Pending (?s1\<lparr>feed := [], clock := [],
                trace := trace ?s1 @ concat (replicate (length os) [Slept (1 / 2), Slept (1 / 2)])\<rparr>)"
    using Cons.prems(3,4,5) by (intro Cons.IH) simp_all
  then show ?case by (simp add: step)
qed

lemma deploy_loop_deploys:
  "feed s = poll_feed (pre @ [ob]) @ rf \<Longrightarrow> clock s = poll_clock (pre @ [ob]) @ rc \<Longrightarrow>
   apogee_time s = Some ta \<Longrightarrow> ta \<noteq> 0 \<Longrightarrow>
   relay_map (c s) ''parachute'' = Some pid \<Longrightarrow>
   \<forall>x\<in>set pre. \<not> deploy_condition ta x \<Longrightarrow> deploy_condition ta ob \<Longrightarrow>
   deploy_loop s =
     Done () (s\<lparr>feed := rf, clock := rc,
                trace := trace s @ concat (replicate (length pre) [Slept (1 / 2), Slept (1 / 2)])
                           @ [Slept (1 / 2), Sent (relay_frame pid OPEN)],
                state := CHUTE_DEPLOYED\<rparr>)"
proof (induction pre arbitrary: s)
  case Nil
  have f: "feed s = obs_h1 ob # obs_h2 ob # obs_alt ob # rf"
    and k: "clock s = obs_t1 ob # obs_t2 ob # obs_now ob # rc"
    using Nil.prems(1,2) by (simp_all add: poll_feed_def poll_clock_def)
  show ?case
    by (simp add: deploy_loop_fire [OF f k Nil.prems(3,4,7,5)])
next
  case (Cons x pre)
  let ?s1 = "s\<lparr>feed := poll_feed (pre @ [ob]) @ rf, clock := poll_clock (pre @ [ob]) @ rc,
               trace := trace s @ [Slept (1 / 2), Slept (1 / 2)]\<rparr>"
  have f: "feed s = obs_h1 x # obs_h2 x # obs_alt x # (poll_feed (pre @ [ob]) @ rf)"
    and k: "clock s = obs_t1 x # obs_t2 x # obs_now x # (poll_clock (pre @ [ob]) @ rc)"
    using Cons.prems(1,2) by (simp_all add: poll_feed_def poll_clock_def)
  have n: "\<not> deploy_condition ta x" using Cons.prems(6) by simp
  have step: "deploy_loop s = deploy_loop ?s1"
    by (rule deploy_loop_skip [OF f k Cons.prems(3,4) n])
  have "deploy_loop ?s1 =
     Done () (?s1\<lparr>feed := rf, clock := rc,
                trace := trace ?s1 @ concat (replicate (length pre) [Slept (1 / 2), Slept (1 / 2)])
                           @ [Slept (1 / 2), Sent (relay_frame pid OPEN)],
                state := CHUTE_DEPLOYED\<rparr>)"
    using Cons.prems(3-7) by (intro Cons.IH) simp_all
  then show ?case by (simp add: step)
qed

lemma descent_enters_loop:
  assumes "state s \<noteq> ABORT" "apogee_alt s = Some a" "fle (Fin 5) a"
  shows "descent_and_chute s = bind deploy_loop (\<lambda>_. landing_loop) (s\<lparr>state := DESCENT\<rparr>)"
  using assms fle_not_flt [of "Fin 5" a]
  by (simp add: descent_and_chute_def bind_Done [of "set_state DESCENT"] set_state_def)

text \<open>
  C5. In the deploy loop of \<open>descent_and_chute\<close> (which it enters, in state
  \<open>DESCENT\<close>, when the state is not \<open>ABORT\<close> and the recorded apogee altitude is at
  least 5.0), with the parachute relay configured and the apogee time recorded: if the
  deploy condition (speed at most 30 and altitude below 200, or more than 9 s since
  apogee) fails at every poll before one and holds at that one, the loop returns there
  with state \<open>CHUTE_DEPLOYED\<close>, having added to the trace only sleeps and then, last,
  the parachute relay's OPEN frame; and as long as it fails at every poll, the loop is
  still running with the state unchanged and only sleeps added to the trace.
\<close>

theorem C5_deploy_loop:
  assumes "relay_map (c s) ''parachute'' = Some pid"
    and "apogee_time s = Some ta" and "ta \<noteq> 0"
  shows "(feed s = poll_feed (pre @ [ob]) @ rf \<and> clock s = poll_clock (pre @ [ob]) @ rc
            \<and> (\<forall>x\<in>set pre. \<not> deploy_condition ta x) \<and> deploy_condition ta ob \<longrightarrow>
          deploy_loop s =
            Done () (s\<lparr>feed := rf, clock := rc,
                trace := trace s @ concat (replicate (length pre) [Slept (1 / 2), Slept (1 / 2)])
                           @ [Slept (1 / 2), Sent (relay_frame pid OPEN)],
                state := CHUTE_DEPLOYED\<rparr>))
       \<and> (feed s = poll_feed pre \<and> clock s = poll_clock pre
            \<and> (\<forall>x\<in>set pre. \<not> deploy_condition ta x) \<longrightarrow>
          deploy_loop s =
            Pending (s\<lparr>feed := [], clock := [],
                trace := trace s
                  @ concat (replicate (length pre) [Slept (1 / 2), Slept (1 / 2)])\<rparr>))
       \<and> (state s \<noteq> ABORT \<and> apogee_alt s = Some a \<and> fle (Fin 5) a \<longrightarrow>
          descent_and_chute s =
            bind deploy_loop (\<lambda>_. landing_loop) (s\<lparr>state := DESCENT\<rparr>))"
  using deploy_loop_deploys [of s pre ob rf rc ta pid] deploy_loop_waits [of s pre ta]
    descent_enters_loop [of s a] assms
  by blast

theorem C5_deploy_loop_witness:
  "\<not> deploy_condition 1000 (poll_at 300 45 1001)
   \<and> deploy_condition 1000 (poll_at 150 20 1002)
   \<and> deploy_loop (descending [poll_at 300 45 1001, poll_at 150 20 1002])
      = Done () ((descending [])
          \<lparr>trace := [Slept (1 / 2), Slept (1 / 2), Slept (1 / 2), Sent (relay_frame 2 OPEN)],
            state := CHUTE_DEPLOYED\<rparr>)
   \<and> \<not> deploy_condition 1000 (poll_at 400 45 1005)
   \<and> deploy_condition 1000 (poll_at 300 45 (1000 + 901 / 100))
   \<and> deploy_loop (descending [poll_at 400 45 1005, poll_at 300 45 (1000 + 901 / 100)])
      = Done () ((descending [])
          \<lparr>trace := [Slept (1 / 2), Slept (1 / 2), Slept (1 / 2), Sent (relay_frame 2 OPEN)],
            state := CHUTE_DEPLOYED\<rparr>)
   \<and> deploy_loop (descending [poll_at 400 45 1005])
      = Pending ((descending []) \<lparr>trace := [Slept (1 / 2), Slept (1 / 2)]\<rparr>)"
proof -
  have cfg: "relay_map (c (descending os)) ''parachute'' = Some 2"
    "apogee_time (descending os) = Some 1000" "(1000::real) \<noteq> 0" for os
    by (simp_all add: descending_def example_defs)
  have fc: "feed (descending (pre @ [ob])) = poll_feed (pre @ [ob]) @ []"
    "clock (descending (pre @ [ob])) = poll_clock (pre @ [ob]) @ []"
    "feed (descending pre) = poll_feed pre" "clock (descending pre) = poll_clock pre" for pre ob
    by (simp_all add: descending_def example_controller_def)
  have d: "\<not> deploy_condition 1000 (poll_at 300 45 1001)"
    "deploy_condition 1000 (poll_at 150 20 1002)"
    "\<not> deploy_condition 1000 (poll_at 400 45 1005)"
    "deploy_condition 1000 (poll_at 300 45 (1000 + 901 / 100))"
    by (simp_all add: deploy_condition_def v_down_def poll_at_def reading_def dict_get_def
        fl_small)
  have 1: "deploy_loop (descending ([poll_at 300 45 1001] @ [poll_at 150 20 1002])) =
      Done () ((descending ([poll_at 300 45 1001] @ [poll_at 150 20 1002]))
               \<lparr>feed := [], clock := [],
                trace := trace (descending ([poll_at 300 45 1001] @ [poll_at 150 20 1002]))
                  @ concat (replicate (length [poll_at 300 45 1001]) [Slept (1 / 2), Slept (1 / 2)])
                  @ [Slept (1 / 2), Sent (relay_frame 2 OPEN)],
                state := CHUTE_DEPLOYED\<rparr>)"
    using C5_deploy_loop [OF cfg, where pre = "[poll_at 300 45 1001]"
        and ob = "poll_at 150 20 1002" and rf = "[]" and rc = "[]"]
      fc d by simp
  have 2: "deploy_loop (descending ([poll_at 400 45 1005] @ [poll_at 300 45 (1000 + 901 / 100)])) =
      Done () ((descending ([poll_at 400 45 1005] @ [poll_at 300 45 (1000 + 901 / 100)]))
               \<lparr>feed := [], clock := [],
                trace := trace (descending ([poll_at 400 45 1005]
                                  @ [poll_at 300 45 (1000 + 901 / 100)]))
                  @ concat (replicate (length [poll_at 400 45 1005]) [Slept (1 / 2), Slept (1 / 2)])
                  @ [Slept (1 / 2), Sent (relay_frame 2 OPEN)],
                state := CHUTE_DEPLOYED\<rparr>)"
    using C5_deploy_loop [OF cfg, where pre = "[poll_at 400 45 1005]"
        and ob = "poll_at 300 45 (1000 + 901 / 100)" and rf = "[]" and rc = "[]"]
      fc d by simp
  have 3: "deploy_loop (descending [poll_at 400 45 1005]) =
      Pending ((descending [poll_at 400 45 1005])
               \<lparr>feed := [], clock := [],
                trace := trace (descending [poll_at 400 45 1005])
                  @ concat (replicate (length [poll_at 400 45 1005])
                      [Slept (1 / 2), Slept (1 / 2)])\<rparr>)"
    using C5_deploy_loop [OF cfg, where pre = "[poll_at 400 45 1005]"] fc d by simp
  have r: "(descending os)\<lparr>feed := [], clock := [], trace := tr, state := st\<rparr>
           = (descending [])\<lparr>trace := tr, state := st\<rparr>"
    "(descending os)\<lparr>feed := [], clock := [], trace := tr\<rparr> = (descending [])\<lparr>trace := tr\<rparr>"
    "trace (descending os) = []" for os tr st
    by (simp_all add: descending_def example_controller_def poll_feed_def poll_clock_def)
  from d 1 2 3 show ?thesis by (simp add: r)
qed

end
